theory Spec2Isabelle
  imports Complex_Main "HOL-Library.Monad_Syntax"
begin

section \<open>Conventions of the embedding\<close>

text \<open>
  This theory embeds \<^verbatim>\<open>src/src/CubicSpline.cpp\<close>: the solution cache for the
  tridiagonal part of the spline equations, the one-dimensional \<^verbatim>\<open>CubicSpline\<close> and the
  bundle \<^verbatim>\<open>CubicSplineN\<close>.

  \<^item> A C++ \<^verbatim>\<open>float\<close> is a \<^typ>\<open>real\<close>: arithmetic is exact, there is no rounding, no
    infinity and no NaN. Every statement below is about the control flow and the algebra of
    the code, not about IEEE rounding.
  \<^item> A \<^verbatim>\<open>size_t\<close> is a \<^typ>\<open>nat\<close>; the only operation that can leave the range,
    subtraction, wraps around modulo \<open>2 ^ 64\<close> as \<open>size_t_sub\<close>.
  \<^item> A \<^verbatim>\<open>vector\<close> is a list; \<^verbatim>\<open>v[i]\<close> is checked: reading or writing at an index
    that is not below the size has no defined behaviour in C++, and is the value \<open>None\<close>
    here. A failed \<^verbatim>\<open>ASSERT_M\<close> and a \<^verbatim>\<open>static_cast<int>\<close> of a value that does not fit an
    \<^verbatim>\<open>int\<close> are \<open>None\<close> as well. A function that can reach one of them returns an
    \<open>option\<close>.
  \<^item> Mutation is state passing: a member function takes the object and returns the new one;
    the file-global \<^verbatim>\<open>solution_cache\<close> is passed to the solvers and returned by them.
  \<^item> A \<^verbatim>\<open>for\<close> or \<^verbatim>\<open>while\<close> loop is a recursive function on the loop variable.
\<close>

definition size_t_sub :: "nat \<Rightarrow> nat \<Rightarrow> nat" where
  "size_t_sub x y = (if y \<le> x then x - y else x + 2 ^ 64 - y)"

definition vec_at :: "'a list \<Rightarrow> nat \<Rightarrow> 'a option" where
  "vec_at v i = (if i < length v then Some (v ! i) else None)"

definition vec_set :: "'a list \<Rightarrow> nat \<Rightarrow> 'a \<Rightarrow> 'a list option" where
  "vec_set v i x = (if i < length v then Some (v[i := x]) else None)"

text \<open>\<^verbatim>\<open>v[i].field = x\<close>: element \<open>i\<close> is replaced by itself with the field changed.\<close>

definition vec_modify :: "'a list \<Rightarrow> nat \<Rightarrow> ('a \<Rightarrow> 'a) \<Rightarrow> 'a list option" where
  "vec_modify v i f = (if i < length v then Some (v[i := f (v ! i)]) else None)"

section \<open>loop\_space\_difference\<close>

text \<open>Lines 137--146. \<^verbatim>\<open>abs\<close> is the absolute value of a \<^verbatim>\<open>float\<close>.\<close>

definition loop_space_difference :: "real \<Rightarrow> real \<Rightarrow> real \<Rightarrow> real" where
  "loop_space_difference a b spatial_extent =
     (let plus_diff = a - (b + spatial_extent);
          minus_diff = a - (b - spatial_extent)
      in if \<bar>plus_diff\<bar> < \<bar>minus_diff\<bar> then plus_diff else minus_diff)"

section \<open>SplineSolutionCache\<close>

text \<open>
  Lines 20--32. A pool is a \<^verbatim>\<open>list<vector<float> >\<close>: the front of the C++ list is
  the head of the HOL list.
\<close>

record SplineSolutionCache =
  straight_diagonals :: "real list list"
  looped_diagonals :: "real list list"

definition solution_cache_limit :: nat where
  "solution_cache_limit = 16"

text \<open>Lines 34--50. \<open>copy_entry\<close> is the inner loop (lines 42--45).\<close>

function copy_entry :: "nat \<Rightarrow> nat \<Rightarrow> real list \<Rightarrow> real list \<Rightarrow> real list option" where
  "copy_entry i out_size entry out =
     (if i < out_size
      then do { e \<leftarrow> vec_at entry i;
                out \<leftarrow> vec_set out i e;
                copy_entry (i + 1) out_size entry out }
      else Some out)"
  by pat_completeness auto
termination
  by (relation "measure (\<lambda>(i, out_size, entry, out). out_size - i)") auto
declare copy_entry.simps [simp del]

fun find_in_cache :: "real list list \<Rightarrow> real list \<Rightarrow> (bool \<times> real list) option" where
  "find_in_cache [] out = Some (False, out)"
| "find_in_cache (entry # cache) out =
     (if length out = length entry
      then do { out \<leftarrow> copy_entry 0 (length out) entry out; Some (True, out) }
      else find_in_cache cache out)"

text \<open>Lines 52--59. \<^verbatim>\<open>pop_back\<close> drops the last element, \<^verbatim>\<open>push_front\<close> conses.\<close>

definition add_to_cache :: "real list list \<Rightarrow> real list \<Rightarrow> real list list" where
  "add_to_cache cache out =
     out # (if length cache \<ge> solution_cache_limit then butlast cache else cache)"

text \<open>Lines 61--67.\<close>

function SplineSolutionCache_prep_inner_loop :: "nat \<Rightarrow> nat \<Rightarrow> real list \<Rightarrow> real list option" where
  "SplineSolutionCache_prep_inner_loop i last_n out =
     (if i < last_n
      then do { out \<leftarrow> vec_set out i 4;
                SplineSolutionCache_prep_inner_loop (i + 1) last_n out }
      else Some out)"
  by pat_completeness auto
termination
  by (relation "measure (\<lambda>(i, last_n, out). last_n - i)") auto
declare SplineSolutionCache_prep_inner_loop.simps [simp del]

definition SplineSolutionCache_prep_inner :: "nat \<Rightarrow> real list \<Rightarrow> real list option" where
  "SplineSolutionCache_prep_inner last_n out = SplineSolutionCache_prep_inner_loop 1 last_n out"

text \<open>
  Lines 69--88. \<open>solve_diagonals_straight_loop\<close> is the loop of lines 81--85,
  \<open>solve_diagonals_straight_miss\<close> the computation of lines 75--85 that runs when the pool has
  no entry of the size, and \<open>solve_diagonals_straight\<close> the whole member function.
\<close>

function solve_diagonals_straight_loop :: "nat \<Rightarrow> nat \<Rightarrow> real list \<Rightarrow> real list option" where
  "solve_diagonals_straight_loop i last_n diagonals =
     (if i < size_t_sub last_n 1
      then do { di \<leftarrow> vec_at diagonals i;
                di1 \<leftarrow> vec_at diagonals (i + 1);
                diagonals \<leftarrow> vec_set diagonals (i + 1) (di1 - 1 / di);
                solve_diagonals_straight_loop (i + 1) last_n diagonals }
      else Some diagonals)"
  by pat_completeness auto
termination
  by (relation "measure (\<lambda>(i, last_n, diagonals). size_t_sub last_n 1 - i)") auto
declare solve_diagonals_straight_loop.simps [simp del]

definition solve_diagonals_straight_miss :: "real list \<Rightarrow> real list option" where
  "solve_diagonals_straight_miss diagonals =
     do { let last_n = length diagonals;
          diagonals \<leftarrow> vec_set diagonals 0 2;
          diagonals \<leftarrow> SplineSolutionCache_prep_inner (size_t_sub last_n 1) diagonals;
          diagonals \<leftarrow> vec_set diagonals (size_t_sub last_n 1) 2;
          d1 \<leftarrow> vec_at diagonals 1;
          diagonals \<leftarrow> vec_set diagonals 1 (d1 - 1 / 2);
          solve_diagonals_straight_loop 1 last_n diagonals }"

definition solve_diagonals_straight ::
  "SplineSolutionCache \<Rightarrow> real list \<Rightarrow> (SplineSolutionCache \<times> real list) option" where
  "solve_diagonals_straight sc diagonals =
     do { (found, diagonals) \<leftarrow> find_in_cache (straight_diagonals sc) diagonals;
          if found then Some (sc, diagonals)
          else do { diagonals \<leftarrow> solve_diagonals_straight_miss diagonals;
                    Some (sc\<lparr>straight_diagonals := add_to_cache (straight_diagonals sc) diagonals\<rparr>,
                          diagonals) } }"

text \<open>
  Lines 90--127. \<open>solve_diagonals_looped_loop\<close> is the loop of lines 106--121 (\<open>end_i\<close> is
  the source's \<^verbatim>\<open>end\<close>), \<open>solve_diagonals_looped_miss\<close> the computation of lines 96--124.
\<close>

function solve_diagonals_looped_loop ::
  "nat \<Rightarrow> nat \<Rightarrow> nat \<Rightarrow> real \<Rightarrow> real \<Rightarrow> real list \<Rightarrow> (real \<times> real \<times> real list) option" where
  "solve_diagonals_looped_loop i stop end_i cedge redge diagonals =
     (if i < stop
      then do { let next_cedge = 0;
                let next_redge = 0;
                di \<leftarrow> vec_at diagonals i;
                let diag_recip = 1 / di;
                di1 \<leftarrow> vec_at diagonals (i + 1);
                diagonals \<leftarrow> vec_set diagonals (i + 1) (di1 - diag_recip);
                let next_redge = next_redge - redge * diag_recip;
                let next_cedge = next_cedge - cedge * diag_recip;
                de \<leftarrow> vec_at diagonals end_i;
                di \<leftarrow> vec_at diagonals i;
                diagonals \<leftarrow> vec_set diagonals end_i (de - redge * (cedge / di));
                let cedge = next_cedge;
                let redge = next_redge;
                solve_diagonals_looped_loop (i + 1) stop end_i cedge redge diagonals }
      else Some (cedge, redge, diagonals))"
  by pat_completeness auto
termination
  by (relation "measure (\<lambda>(i, stop, end_i, cedge, redge, diagonals). stop - i)") auto
declare solve_diagonals_looped_loop.simps [simp del]

definition solve_diagonals_looped_miss :: "real list \<Rightarrow> real list option" where
  "solve_diagonals_looped_miss diagonals =
     do { let last_n = length diagonals;
          diagonals \<leftarrow> vec_set diagonals 0 4;
          diagonals \<leftarrow> SplineSolutionCache_prep_inner last_n diagonals;
          let end_i = size_t_sub last_n 1;
          let stop = size_t_sub end_i 1;
          (cedge, redge, diagonals) \<leftarrow> solve_diagonals_looped_loop 0 stop end_i 1 1 diagonals;
          de \<leftarrow> vec_at diagonals end_i;
          ds \<leftarrow> vec_at diagonals stop;
          vec_set diagonals end_i (de - redge * ((1 - cedge) / ds)) }"

definition solve_diagonals_looped ::
  "SplineSolutionCache \<Rightarrow> real list \<Rightarrow> (SplineSolutionCache \<times> real list) option" where
  "solve_diagonals_looped sc diagonals =
     do { (found, diagonals) \<leftarrow> find_in_cache (looped_diagonals sc) diagonals;
          if found then Some (sc, diagonals)
          else do { diagonals \<leftarrow> solve_diagonals_looped_miss diagonals;
                    Some (sc\<lparr>looped_diagonals := add_to_cache (looped_diagonals sc) diagonals\<rparr>,
                          diagonals) } }"

section \<open>CubicSpline\<close>

text \<open>
  Modelled from the spec: the declarations of \<^verbatim>\<open>CubicSpline.h\<close>, which is not among the
  sources. A control point has the value \<open>a\<close> and the solved coefficients \<open>b\<close>, \<open>c\<close>,
  \<open>d\<close> (the fields \<^verbatim>\<open>a\<close>, \<^verbatim>\<open>b\<close>, \<^verbatim>\<open>c\<close>, \<^verbatim>\<open>d\<close> of the source, here with the prefix
  \<open>pt_\<close>); a spline has the vector \<^verbatim>\<open>m_points\<close> and the scalar \<^verbatim>\<open>m_spatial_extent\<close>. A
  point or a spline that a \<^verbatim>\<open>resize\<close> creates is value-initialised: all fields \<open>0\<close>, no
  points.
\<close>

record SplinePoint =
  pt_a :: real
  pt_b :: real
  pt_c :: real
  pt_d :: real

record CubicSpline =
  m_points :: "SplinePoint list"
  m_spatial_extent :: real

definition default_SplinePoint :: SplinePoint where
  "default_SplinePoint = \<lparr>pt_a = 0, pt_b = 0, pt_c = 0, pt_d = 0\<rparr>"

definition default_CubicSpline :: CubicSpline where
  "default_CubicSpline = \<lparr>m_points = [], m_spatial_extent = 0\<rparr>"

text \<open>\<^verbatim>\<open>vector::resize\<close>: cut to the first \<open>s\<close> elements, or filled up with the default.\<close>

definition vec_resize :: "'a \<Rightarrow> nat \<Rightarrow> 'a list \<Rightarrow> 'a list" where
  "vec_resize dflt s v = take s v @ replicate (s - length v) dflt"

text \<open>Lines 237--264. \<open>check_minimum_size_loop\<close> is the loop of lines 258--262.\<close>

function check_minimum_size_loop ::
  "nat \<Rightarrow> real \<Rightarrow> bool \<Rightarrow> SplinePoint list \<Rightarrow> (bool \<times> SplinePoint list) option" where
  "check_minimum_size_loop i a all_points_identical pts =
     (if i < length pts
      then do { pts' \<leftarrow> vec_modify pts i (\<lambda>p. p\<lparr>pt_b := 0, pt_c := 0, pt_d := 0\<rparr>);
                p \<leftarrow> vec_at pts' i;
                let all_points_identical = (if pt_a p \<noteq> a then False else all_points_identical);
                check_minimum_size_loop (i + 1) a all_points_identical pts' }
      else Some (all_points_identical, pts))"
  by pat_completeness auto
termination
  by (relation "measure (\<lambda>(i, a, all_points_identical, pts). length pts - i)")
     (auto simp: vec_modify_def split: if_splits)
declare check_minimum_size_loop.simps [simp del]

definition check_minimum_size :: "CubicSpline \<Rightarrow> (bool \<times> CubicSpline) option" where
  "check_minimum_size s =
     (let last_n = length (m_points s); pts = m_points s; ext = m_spatial_extent s in
      if last_n < 2
      then do { pts \<leftarrow> vec_modify pts 0 (\<lambda>p. p\<lparr>pt_b := 0, pt_c := 0, pt_d := 0\<rparr>);
                Some (True, s\<lparr>m_points := pts\<rparr>) }
      else if last_n = 2
      then do { p0 \<leftarrow> vec_at pts 0;
                p1 \<leftarrow> vec_at pts 1;
                pts \<leftarrow> vec_modify pts 0
                  (\<lambda>p. p\<lparr>pt_b := loop_space_difference (pt_a p1) (pt_a p0) ext\<rparr>);
                pts \<leftarrow> vec_modify pts 0 (\<lambda>p. p\<lparr>pt_c := 0, pt_d := 0\<rparr>);
                p0 \<leftarrow> vec_at pts 0;
                p1 \<leftarrow> vec_at pts 1;
                pts \<leftarrow> vec_modify pts 1
                  (\<lambda>p. p\<lparr>pt_b := loop_space_difference (pt_a p0) (pt_a p1) ext\<rparr>);
                pts \<leftarrow> vec_modify pts 1 (\<lambda>p. p\<lparr>pt_c := 0, pt_d := 0\<rparr>);
                Some (True, s\<lparr>m_points := pts\<rparr>) }
      else do { p0 \<leftarrow> vec_at pts 0;
                let a = pt_a p0;
                (all_points_identical, pts) \<leftarrow> check_minimum_size_loop 1 a True pts;
                Some (all_points_identical, s\<lparr>m_points := pts\<rparr>) })"

text \<open>Lines 266--273.\<close>

function CubicSpline_prep_inner_loop ::
  "nat \<Rightarrow> nat \<Rightarrow> CubicSpline \<Rightarrow> real list \<Rightarrow> real list option" where
  "CubicSpline_prep_inner_loop i last_n s results =
     (if i < size_t_sub last_n 1
      then do { pn \<leftarrow> vec_at (m_points s) (i + 1);
                pp \<leftarrow> vec_at (m_points s) (size_t_sub i 1);
                results \<leftarrow> vec_set results i
                  (3 * loop_space_difference (pt_a pn) (pt_a pp) (m_spatial_extent s));
                CubicSpline_prep_inner_loop (i + 1) last_n s results }
      else Some results)"
  by pat_completeness auto
termination
  by (relation "measure (\<lambda>(i, last_n, s, results). size_t_sub last_n 1 - i)") auto
declare CubicSpline_prep_inner_loop.simps [simp del]

definition CubicSpline_prep_inner :: "nat \<Rightarrow> CubicSpline \<Rightarrow> real list \<Rightarrow> real list option" where
  "CubicSpline_prep_inner last_n s results = CubicSpline_prep_inner_loop 1 last_n s results"

text \<open>
  Lines 275--299. \<open>set_results_divide\<close> is the loop of lines 278--281, \<open>set_results_points\<close>
  the loop of lines 284--297. \<open>UNNAN\<close> is the macro of line 292; no real differs from itself.
\<close>

definition UNNAN :: "real \<Rightarrow> real" where
  "UNNAN n = (if n \<noteq> n then 0 else n)"

function set_results_divide :: "nat \<Rightarrow> nat \<Rightarrow> real list \<Rightarrow> real list \<Rightarrow> real list option" where
  "set_results_divide i last_n diagonals results =
     (if i < last_n
      then do { ri \<leftarrow> vec_at results i;
                di \<leftarrow> vec_at diagonals i;
                results \<leftarrow> vec_set results i (ri / di);
                set_results_divide (i + 1) last_n diagonals results }
      else Some results)"
  by pat_completeness auto
termination
  by (relation "measure (\<lambda>(i, last_n, diagonals, results). last_n - i)") auto
declare set_results_divide.simps [simp del]

function set_results_points ::
  "nat \<Rightarrow> nat \<Rightarrow> real list \<Rightarrow> real \<Rightarrow> SplinePoint list \<Rightarrow> SplinePoint list option" where
  "set_results_points i last_n results ext pts =
     (if i < last_n
      then do { let next = (i + 1) mod last_n;
                pn \<leftarrow> vec_at pts next;
                pi \<leftarrow> vec_at pts i;
                let diff = loop_space_difference (pt_a pn) (pt_a pi) ext;
                ri \<leftarrow> vec_at results i;
                rn \<leftarrow> vec_at results next;
                pts \<leftarrow> vec_modify pts i (\<lambda>p. p\<lparr>pt_b := ri\<rparr>);
                pts \<leftarrow> vec_modify pts i (\<lambda>p. p\<lparr>pt_c := (3 * diff) - (2 * ri) - rn\<rparr>);
                pts \<leftarrow> vec_modify pts i (\<lambda>p. p\<lparr>pt_d := (2 * - diff) + ri + rn\<rparr>);
                pts \<leftarrow> vec_modify pts i (\<lambda>p. p\<lparr>pt_b := UNNAN (pt_b p)\<rparr>);
                pts \<leftarrow> vec_modify pts i (\<lambda>p. p\<lparr>pt_c := UNNAN (pt_c p)\<rparr>);
                pts \<leftarrow> vec_modify pts i (\<lambda>p. p\<lparr>pt_d := UNNAN (pt_d p)\<rparr>);
                set_results_points (i + 1) last_n results ext pts }
      else Some pts)"
  by pat_completeness auto
termination
  by (relation "measure (\<lambda>(i, last_n, results, ext, pts). last_n - i)") auto
declare set_results_points.simps [simp del]

definition set_results :: "nat \<Rightarrow> real list \<Rightarrow> real list \<Rightarrow> CubicSpline \<Rightarrow> CubicSpline option" where
  "set_results last_n diagonals results s =
     do { results \<leftarrow> set_results_divide 0 last_n diagonals results;
          pts \<leftarrow> set_results_points 0 last_n results (m_spatial_extent s) (m_points s);
          Some (s\<lparr>m_points := pts\<rparr>) }"

text \<open>
  Lines 148--204. \<open>solve_looped_loop\<close> is the loop of lines 183--198. The two vectors
  \<^verbatim>\<open>results\<close> and \<^verbatim>\<open>diagonals\<close> are created with one zero per point.
\<close>

function solve_looped_loop ::
  "nat \<Rightarrow> nat \<Rightarrow> nat \<Rightarrow> real \<Rightarrow> real \<Rightarrow> real list \<Rightarrow> real list \<Rightarrow> (real \<times> real \<times> real list) option" where
  "solve_looped_loop i stop end_i cedge redge diagonals results =
     (if i < stop
      then do { let next_cedge = 0;
                let next_redge = 0;
                di \<leftarrow> vec_at diagonals i;
                let diag_recip = 1 / di;
                let next_redge = next_redge - redge * diag_recip;
                ri1 \<leftarrow> vec_at results (i + 1);
                ri \<leftarrow> vec_at results i;
                results \<leftarrow> vec_set results (i + 1) (ri1 - ri * diag_recip);
                let next_cedge = next_cedge - cedge * diag_recip;
                let cedge = next_cedge;
                re \<leftarrow> vec_at results end_i;
                ri \<leftarrow> vec_at results i;
                di \<leftarrow> vec_at diagonals i;
                results \<leftarrow> vec_set results end_i (re - ri * (redge / di));
                let redge = next_redge;
                solve_looped_loop (i + 1) stop end_i cedge redge diagonals results }
      else Some (cedge, redge, results))"
  by pat_completeness auto
termination
  by (relation "measure (\<lambda>(i, stop, end_i, cedge, redge, diagonals, results). stop - i)") auto
declare solve_looped_loop.simps [simp del]

definition solve_looped ::
  "SplineSolutionCache \<Rightarrow> CubicSpline \<Rightarrow> (SplineSolutionCache \<times> CubicSpline) option" where
  "solve_looped sc s =
     do { (solved, s) \<leftarrow> check_minimum_size s;
          if solved then Some (sc, s)
          else do {
            let last_n = length (m_points s);
            let results = replicate (length (m_points s)) 0;
            let diagonals = replicate (length (m_points s)) 0;
            (sc, diagonals) \<leftarrow> solve_diagonals_looped sc diagonals;
            p1 \<leftarrow> vec_at (m_points s) 1;
            pl \<leftarrow> vec_at (m_points s) (size_t_sub last_n 1);
            results \<leftarrow> vec_set results 0
              (3 * loop_space_difference (pt_a p1) (pt_a pl) (m_spatial_extent s));
            results \<leftarrow> CubicSpline_prep_inner last_n s results;
            p0 \<leftarrow> vec_at (m_points s) 0;
            pl2 \<leftarrow> vec_at (m_points s) (size_t_sub last_n 2);
            results \<leftarrow> vec_set results (size_t_sub last_n 1)
              (3 * loop_space_difference (pt_a p0) (pt_a pl2) (m_spatial_extent s));
            let end_i = size_t_sub last_n 1;
            let stop = size_t_sub end_i 1;
            (cedge, redge, results) \<leftarrow> solve_looped_loop 0 stop end_i 1 1 diagonals results;
            re \<leftarrow> vec_at results end_i;
            rs \<leftarrow> vec_at results stop;
            ds \<leftarrow> vec_at diagonals stop;
            results \<leftarrow> vec_set results end_i (re - rs * ((1 - redge) / ds));
            s \<leftarrow> set_results last_n diagonals results s;
            Some (sc, s) } }"

text \<open>Lines 206--235. \<open>solve_straight_loop\<close> is the loop of lines 229--233.\<close>

function solve_straight_loop :: "nat \<Rightarrow> nat \<Rightarrow> real list \<Rightarrow> real list \<Rightarrow> real list option" where
  "solve_straight_loop i last_n diagonals results =
     (if i < size_t_sub last_n 1
      then do { ri \<leftarrow> vec_at results i;
                rp \<leftarrow> vec_at results (size_t_sub i 1);
                di \<leftarrow> vec_at diagonals i;
                results \<leftarrow> vec_set results i (ri - rp * (1 / di));
                solve_straight_loop (i + 1) last_n diagonals results }
      else Some results)"
  by pat_completeness auto
termination
  by (relation "measure (\<lambda>(i, last_n, diagonals, results). size_t_sub last_n 1 - i)") auto
declare solve_straight_loop.simps [simp del]

text \<open>
  \<open>solve_straight_rhs\<close> is the part of \<open>solve_straight\<close> that fills the right-hand side
  (lines 213--216), \<open>solve_straight_eliminate\<close> the part that eliminates on it
  (lines 228--233).
\<close>

definition solve_straight_rhs :: "CubicSpline \<Rightarrow> real list \<Rightarrow> real list option" where
  "solve_straight_rhs s results =
     do { let last_n = length (m_points s);
          p1 \<leftarrow> vec_at (m_points s) 1;
          p0 \<leftarrow> vec_at (m_points s) 0;
          results \<leftarrow> vec_set results 0 (3 * (pt_a p1 - pt_a p0));
          results \<leftarrow> CubicSpline_prep_inner last_n s results;
          pl \<leftarrow> vec_at (m_points s) (size_t_sub last_n 1);
          pl2 \<leftarrow> vec_at (m_points s) (size_t_sub last_n 2);
          vec_set results (size_t_sub last_n 1)
            (3 * loop_space_difference (pt_a pl) (pt_a pl2) (m_spatial_extent s)) }"

definition solve_straight_eliminate :: "nat \<Rightarrow> real list \<Rightarrow> real list \<Rightarrow> real list option" where
  "solve_straight_eliminate last_n diagonals results =
     do { r1 \<leftarrow> vec_at results 1;
          r0 \<leftarrow> vec_at results 0;
          results \<leftarrow> vec_set results 1 (r1 - r0 * (1 / 2));
          solve_straight_loop 1 last_n diagonals results }"

definition solve_straight ::
  "SplineSolutionCache \<Rightarrow> CubicSpline \<Rightarrow> (SplineSolutionCache \<times> CubicSpline) option" where
  "solve_straight sc s =
     do { (solved, s) \<leftarrow> check_minimum_size s;
          if solved then Some (sc, s)
          else do {
            let last_n = length (m_points s);
            let results = replicate (length (m_points s)) 0;
            let diagonals = replicate (length (m_points s)) 0;
            (sc, diagonals) \<leftarrow> solve_diagonals_straight sc diagonals;
            results \<leftarrow> solve_straight_rhs s results;
            results \<leftarrow> solve_straight_eliminate last_n diagonals results;
            s \<leftarrow> set_results last_n diagonals results s;
            Some (sc, s) } }"

text \<open>
  Lines 301--360. \<^verbatim>\<open>static_cast<int>\<close> truncates towards zero and is defined only when the
  truncated value fits a 32-bit \<^verbatim>\<open>int\<close>; \<^verbatim>\<open>static_cast<size_t>\<close> of an \<^verbatim>\<open>int\<close> is its value
  modulo \<open>2 ^ 64\<close>. The two \<^verbatim>\<open>while\<close> loops of lines 311--312 need not end for every pair of
  reals (\<open>max_t \<le> 0\<close>), so they return an option, \<open>None\<close> for the run that does not end.
  \<open>CubicSpline_evaluate_tail\<close> is lines 326--331, \<open>CubicSpline_evaluate_derivative_tail\<close>
  lines 355--359.
\<close>

definition static_cast_int :: "real \<Rightarrow> int option" where
  "static_cast_int t =
     (let z = (if 0 \<le> t then \<lfloor>t\<rfloor> else \<lceil>t\<rceil>)
      in if - (2 ^ 31) \<le> z \<and> z < 2 ^ 31 then Some z else None)"

definition static_cast_size_t :: "int \<Rightarrow> nat" where
  "static_cast_size_t i = nat (i mod 2 ^ 64)"

partial_function (option) wrap_down :: "real \<Rightarrow> real \<Rightarrow> real option" where
  "wrap_down max_t t = (if t \<ge> max_t then wrap_down max_t (t - max_t) else Some t)"

partial_function (option) wrap_up :: "real \<Rightarrow> real \<Rightarrow> real option" where
  "wrap_up max_t t = (if t < 0 then wrap_up max_t (t + max_t) else Some t)"
declare wrap_down.simps [code]
declare wrap_up.simps [code]

definition CubicSpline_evaluate_tail :: "CubicSpline \<Rightarrow> real \<Rightarrow> int \<Rightarrow> real option" where
  "CubicSpline_evaluate_tail s t flort =
     do { let p = min (static_cast_size_t flort) (size_t_sub (length (m_points s)) 1);
          let tfrac = t - real_of_int flort;
          let tsq = tfrac * tfrac;
          let tcub = tsq * tfrac;
          pt \<leftarrow> vec_at (m_points s) p;
          Some (pt_a pt + (pt_b pt * tfrac) + (pt_c pt * tsq) + (pt_d pt * tcub)) }"

definition CubicSpline_evaluate :: "CubicSpline \<Rightarrow> real \<Rightarrow> bool \<Rightarrow> real option" where
  "CubicSpline_evaluate s t lp =
     (if m_points s = [] then Some 0
      else do {
        flort \<leftarrow> static_cast_int t;
        if lp
        then do { let max_t = real (length (m_points s));
                  t \<leftarrow> wrap_down max_t t;
                  t \<leftarrow> wrap_up max_t t;
                  flort \<leftarrow> static_cast_int t;
                  CubicSpline_evaluate_tail s t flort }
        else if flort \<le> 0
        then do { p \<leftarrow> vec_at (m_points s) 0; Some (pt_a p) }
        else if static_cast_size_t flort \<ge> size_t_sub (length (m_points s)) 1
        then do { p \<leftarrow> vec_at (m_points s) (size_t_sub (length (m_points s)) 1); Some (pt_a p) }
        else CubicSpline_evaluate_tail s t flort })"

definition CubicSpline_evaluate_derivative_tail :: "CubicSpline \<Rightarrow> real \<Rightarrow> int \<Rightarrow> real option" where
  "CubicSpline_evaluate_derivative_tail s t flort =
     do { let p = min (static_cast_size_t flort) (size_t_sub (length (m_points s)) 1);
          let tfrac = t - real_of_int flort;
          let tsq = tfrac * tfrac;
          pt \<leftarrow> vec_at (m_points s) p;
          Some (pt_b pt + (2 * pt_c pt * tfrac) + (3 * pt_d pt * tsq)) }"

definition CubicSpline_evaluate_derivative :: "CubicSpline \<Rightarrow> real \<Rightarrow> bool \<Rightarrow> real option" where
  "CubicSpline_evaluate_derivative s t lp =
     (if m_points s = [] then Some 0
      else do {
        flort \<leftarrow> static_cast_int t;
        if lp
        then do { let max_t = real (length (m_points s));
                  t \<leftarrow> wrap_down max_t t;
                  t \<leftarrow> wrap_up max_t t;
                  flort \<leftarrow> static_cast_int t;
                  CubicSpline_evaluate_derivative_tail s t flort }
        else if static_cast_size_t flort \<ge> size_t_sub (length (m_points s)) 1
        then Some 0
        else CubicSpline_evaluate_derivative_tail s t flort })"

text \<open>Lines 362--397. A failed \<^verbatim>\<open>ASSERT_M\<close> is \<open>None\<close>.\<close>

definition CubicSpline_set_point :: "nat \<Rightarrow> real \<Rightarrow> CubicSpline \<Rightarrow> CubicSpline option" where
  "CubicSpline_set_point i v s =
     (if \<not> i < length (m_points s) then None
      else do { pts \<leftarrow> vec_modify (m_points s) i (\<lambda>p. p\<lparr>pt_a := v\<rparr>);
                Some (s\<lparr>m_points := pts\<rparr>) })"

definition CubicSpline_set_coefficients ::
  "nat \<Rightarrow> real \<Rightarrow> real \<Rightarrow> real \<Rightarrow> CubicSpline \<Rightarrow> CubicSpline option" where
  "CubicSpline_set_coefficients i b c d s =
     (if \<not> i < length (m_points s) then None
      else do { pts \<leftarrow> vec_modify (m_points s) i (\<lambda>p. p\<lparr>pt_b := b, pt_c := c, pt_d := d\<rparr>);
                Some (s\<lparr>m_points := pts\<rparr>) })"

definition CubicSpline_get_coefficients :: "nat \<Rightarrow> CubicSpline \<Rightarrow> (real \<times> real \<times> real) option" where
  "CubicSpline_get_coefficients i s =
     (if \<not> i < length (m_points s) then None
      else do { p \<leftarrow> vec_at (m_points s) i; Some (pt_b p, pt_c p, pt_d p) })"

definition CubicSpline_resize :: "nat \<Rightarrow> CubicSpline \<Rightarrow> CubicSpline" where
  "CubicSpline_resize sz s = s\<lparr>m_points := vec_resize default_SplinePoint sz (m_points s)\<rparr>"

definition CubicSpline_size :: "CubicSpline \<Rightarrow> nat" where
  "CubicSpline_size s = length (m_points s)"

definition CubicSpline_empty :: "CubicSpline \<Rightarrow> bool" where
  "CubicSpline_empty s = (m_points s = [])"

section \<open>CubicSplineN\<close>

text \<open>
  Modelled from the spec: the declaration of \<^verbatim>\<open>CubicSplineN\<close> in \<^verbatim>\<open>CubicSpline.h\<close>, which is
  not among the sources. The bundle has the vector \<^verbatim>\<open>m_splines\<close>, the flags \<^verbatim>\<open>loop\<close> and
  \<^verbatim>\<open>m_dirty\<close>, and the flag \<^verbatim>\<open>m_owned_by_actor\<close> that the Lua binding reads.
\<close>

record CubicSplineN =
  m_splines :: "CubicSpline list"
  loop :: bool
  m_dirty :: bool
  m_owned_by_actor :: bool

text \<open>
  Lines 399--419. \<open>solve_each\<close> is either of the two iterator loops, with the member function
  it calls on every spline.
\<close>

fun solve_each ::
  "(SplineSolutionCache \<Rightarrow> CubicSpline \<Rightarrow> (SplineSolutionCache \<times> CubicSpline) option)
   \<Rightarrow> SplineSolutionCache \<Rightarrow> CubicSpline list \<Rightarrow> (SplineSolutionCache \<times> CubicSpline list) option" where
  "solve_each solve_one sc [] = Some (sc, [])"
| "solve_each solve_one sc (spline # splines) =
     do { (sc, spline) \<leftarrow> solve_one sc spline;
          (sc, splines) \<leftarrow> solve_each solve_one sc splines;
          Some (sc, spline # splines) }"

definition CubicSplineN_solve ::
  "SplineSolutionCache \<Rightarrow> CubicSplineN \<Rightarrow> (SplineSolutionCache \<times> CubicSplineN) option" where
  "CubicSplineN_solve sc n =
     (if \<not> m_dirty n then Some (sc, n)
      else do { (sc, splines) \<leftarrow>
                  (if loop n then solve_each solve_looped sc (m_splines n)
                   else solve_each solve_straight sc (m_splines n));
                Some (sc, n\<lparr>m_splines := splines, m_dirty := False\<rparr>) })"

text \<open>Lines 421--437: the values are pushed to the back of \<open>v\<close>, one per spline.\<close>

fun CubicSplineN_evaluate_each ::
  "(CubicSpline \<Rightarrow> real \<Rightarrow> bool \<Rightarrow> real option) \<Rightarrow> CubicSpline list \<Rightarrow> real \<Rightarrow> bool \<Rightarrow> real list
   \<Rightarrow> real list option" where
  "CubicSplineN_evaluate_each eval_one [] t lp v = Some v"
| "CubicSplineN_evaluate_each eval_one (spline # splines) t lp v =
     do { x \<leftarrow> eval_one spline t lp;
          CubicSplineN_evaluate_each eval_one splines t lp (v @ [x]) }"

definition CubicSplineN_evaluate :: "CubicSplineN \<Rightarrow> real \<Rightarrow> real list \<Rightarrow> real list option" where
  "CubicSplineN_evaluate n t v =
     CubicSplineN_evaluate_each CubicSpline_evaluate (m_splines n) t (loop n) v"

definition CubicSplineN_evaluate_derivative ::
  "CubicSplineN \<Rightarrow> real \<Rightarrow> real list \<Rightarrow> real list option" where
  "CubicSplineN_evaluate_derivative n t v =
     CubicSplineN_evaluate_each CubicSpline_evaluate_derivative (m_splines n) t (loop n) v"

text \<open>Lines 439--447. \<open>CubicSplineN_set_point_loop\<close> is the loop of lines 442--445.\<close>

function CubicSplineN_set_point_loop ::
  "nat \<Rightarrow> nat \<Rightarrow> real list \<Rightarrow> CubicSpline list \<Rightarrow> CubicSpline list option" where
  "CubicSplineN_set_point_loop k i v splines =
     (if k < length splines
      then do { spline \<leftarrow> vec_at splines k;
                vk \<leftarrow> vec_at v k;
                spline \<leftarrow> CubicSpline_set_point i vk spline;
                splines' \<leftarrow> vec_set splines k spline;
                CubicSplineN_set_point_loop (k + 1) i v splines' }
      else Some splines)"
  by pat_completeness auto
termination
  by (relation "measure (\<lambda>(k, i, v, splines). length splines - k)")
     (auto simp: vec_set_def split: if_splits)
declare CubicSplineN_set_point_loop.simps [simp del]

definition CubicSplineN_set_point :: "nat \<Rightarrow> real list \<Rightarrow> CubicSplineN \<Rightarrow> CubicSplineN option" where
  "CubicSplineN_set_point i v n =
     (if \<not> length v = length (m_splines n) then None
      else do { splines \<leftarrow> CubicSplineN_set_point_loop 0 i v (m_splines n);
                Some (n\<lparr>m_splines := splines, m_dirty := True\<rparr>) })"

text \<open>Lines 449--460. \<open>CubicSplineN_set_coefficients_loop\<close> is the loop of lines 455--458.\<close>

function CubicSplineN_set_coefficients_loop ::
  "nat \<Rightarrow> nat \<Rightarrow> real list \<Rightarrow> real list \<Rightarrow> real list \<Rightarrow> CubicSpline list \<Rightarrow> CubicSpline list option" where
  "CubicSplineN_set_coefficients_loop k i b c d splines =
     (if k < length splines
      then do { spline \<leftarrow> vec_at splines k;
                bk \<leftarrow> vec_at b k;
                ck \<leftarrow> vec_at c k;
                dk \<leftarrow> vec_at d k;
                spline \<leftarrow> CubicSpline_set_coefficients i bk ck dk spline;
                splines' \<leftarrow> vec_set splines k spline;
                CubicSplineN_set_coefficients_loop (k + 1) i b c d splines' }
      else Some splines)"
  by pat_completeness auto
termination
  by (relation "measure (\<lambda>(k, i, b, c, d, splines). length splines - k)")
     (auto simp: vec_set_def split: if_splits)
declare CubicSplineN_set_coefficients_loop.simps [simp del]

definition CubicSplineN_set_coefficients ::
  "nat \<Rightarrow> real list \<Rightarrow> real list \<Rightarrow> real list \<Rightarrow> CubicSplineN \<Rightarrow> CubicSplineN option" where
  "CubicSplineN_set_coefficients i b c d n =
     (if \<not> (length b = length c \<and> length c = length d \<and> length d = length (m_splines n)) then None
      else do { splines \<leftarrow> CubicSplineN_set_coefficients_loop 0 i b c d (m_splines n);
                Some (n\<lparr>m_splines := splines, m_dirty := True\<rparr>) })"

text \<open>Lines 474--487.\<close>

definition CubicSplineN_set_spatial_extent :: "nat \<Rightarrow> real \<Rightarrow> CubicSplineN \<Rightarrow> CubicSplineN option" where
  "CubicSplineN_set_spatial_extent i extent n =
     (if \<not> i < length (m_splines n) then None
      else do { splines \<leftarrow> vec_modify (m_splines n) i (\<lambda>s. s\<lparr>m_spatial_extent := extent\<rparr>);
                Some (n\<lparr>m_splines := splines, m_dirty := True\<rparr>) })"

definition CubicSplineN_get_spatial_extent :: "nat \<Rightarrow> CubicSplineN \<Rightarrow> real option" where
  "CubicSplineN_get_spatial_extent i n =
     (if \<not> i < length (m_splines n) then None
      else do { s \<leftarrow> vec_at (m_splines n) i; Some (m_spatial_extent s) })"

text \<open>Lines 489--522.\<close>

definition CubicSplineN_resize :: "nat \<Rightarrow> CubicSplineN \<Rightarrow> CubicSplineN" where
  "CubicSplineN_resize sz n =
     n\<lparr>m_splines := map (CubicSpline_resize sz) (m_splines n), m_dirty := True\<rparr>"

definition CubicSplineN_size :: "CubicSplineN \<Rightarrow> nat" where
  "CubicSplineN_size n = (if m_splines n \<noteq> [] then CubicSpline_size (m_splines n ! 0) else 0)"

definition CubicSplineN_empty :: "CubicSplineN \<Rightarrow> bool" where
  "CubicSplineN_empty n = (m_splines n = [] \<or> CubicSpline_empty (m_splines n ! 0))"

definition CubicSplineN_redimension :: "nat \<Rightarrow> CubicSplineN \<Rightarrow> CubicSplineN" where
  "CubicSplineN_redimension d n =
     n\<lparr>m_splines := vec_resize default_CubicSpline d (m_splines n), m_dirty := True\<rparr>"

definition CubicSplineN_dimension :: "CubicSplineN \<Rightarrow> nat" where
  "CubicSplineN_dimension n = length (m_splines n)"

section \<open>The specification's words, and the states the program reaches\<close>

text \<open>
  The periodic elimination as the specification words it: at step \<open>i\<close> compute
  \<open>recip = 1 / d[i]\<close>, update \<open>d[i+1] -= recip\<close>, update
  \<open>d[n-1] -= redge * (cedge * recip)\<close>, then \<open>cedge' = - cedge * recip\<close> and
  \<open>redge' = - redge * recip\<close>; the steps are \<open>i = 0, \<dots>, n - 3\<close>, from \<open>cedge = redge = 1\<close>,
  and after them \<open>d[n-1] -= redge * ((1 - cedge) / d[n-2])\<close>.
\<close>

definition periodic_step :: "nat \<Rightarrow> nat \<Rightarrow> real list \<times> real \<times> real \<Rightarrow> real list \<times> real \<times> real" where
  "periodic_step n i = (\<lambda>(d, cedge, redge).
     let recip = 1 / d ! i;
         d = d[i + 1 := d ! (i + 1) - recip];
         d = d[n - 1 := d ! (n - 1) - redge * (cedge * recip)]
     in (d, - cedge * recip, - redge * recip))"

definition periodic_elimination :: "nat \<Rightarrow> real list \<Rightarrow> real list" where
  "periodic_elimination n d0 =
     (case fold (periodic_step n) [0..<n - 2] (d0, 1, 1) of
        (d, cedge, redge) \<Rightarrow> d[n - 1 := d ! (n - 1) - redge * ((1 - cedge) / d ! (n - 2))])"

text \<open>
  The elimination on the right-hand side as the specification words it for the open mode,
  mirroring the diagonal's: \<open>rhs[1] -= rhs[0] * 0.5\<close>, then for \<open>i = 1, \<dots>, n - 2\<close>
  subtract \<open>rhs[i] / d[i]\<close> from \<open>rhs[i+1]\<close>.
\<close>

definition mirrored_rhs_step :: "real list \<Rightarrow> nat \<Rightarrow> real list \<Rightarrow> real list" where
  "mirrored_rhs_step d i rhs = rhs[i + 1 := rhs ! (i + 1) - rhs ! i / d ! i]"

definition mirrored_rhs_elimination :: "nat \<Rightarrow> real list \<Rightarrow> real list \<Rightarrow> real list" where
  "mirrored_rhs_elimination n d rhs =
     fold (mirrored_rhs_step d) [1..<n - 1] (rhs[1 := rhs ! 1 - rhs ! 0 * (1 / 2)])"

text \<open>
  The open elimination as the specification words it: from the diagonal \<open>2, 4, \<dots>, 4, 2\<close>,
  \<open>d[1] -= 0.5\<close>, then for \<open>i = 1, \<dots>, n - 2\<close> the step \<open>d[i+1] -= 1 / d[i]\<close>.
\<close>

definition straight_start :: "nat \<Rightarrow> real list" where
  "straight_start n = (replicate n 4)[0 := 2, n - 1 := 2]"

definition open_step :: "nat \<Rightarrow> real list \<Rightarrow> real list" where
  "open_step i d = d[i + 1 := d ! (i + 1) - 1 / d ! i]"

definition open_elimination :: "nat \<Rightarrow> real list" where
  "open_elimination n =
     fold open_step [1..<n - 1] ((straight_start n)[1 := straight_start n ! 1 - 1 / 2])"

text \<open>
  The file-global \<^verbatim>\<open>solution_cache\<close> starts with two empty pools and changes only in
  the two \<^verbatim>\<open>solve_diagonals\<close> member functions: \<open>cache_reachable\<close> holds of the states it
  can be in. \<open>cache_ok\<close> is the invariant of these states: every entry of a pool is what
  the computation of that pool returns for a vector of the entry's size.
\<close>

definition initial_cache :: SplineSolutionCache where
  "initial_cache = \<lparr>straight_diagonals = [], looped_diagonals = []\<rparr>"

inductive cache_reachable :: "SplineSolutionCache \<Rightarrow> bool" where
  initial: "cache_reachable initial_cache"
| straight: "cache_reachable sc \<Longrightarrow> solve_diagonals_straight sc ds = Some (sc', out)
             \<Longrightarrow> cache_reachable sc'"
| looped: "cache_reachable sc \<Longrightarrow> solve_diagonals_looped sc ds = Some (sc', out)
           \<Longrightarrow> cache_reachable sc'"

definition pool_ok :: "(real list \<Rightarrow> real list option) \<Rightarrow> real list list \<Rightarrow> bool" where
  "pool_ok miss pool = list_all (\<lambda>e. miss e = Some e) pool"

definition cache_ok :: "SplineSolutionCache \<Rightarrow> bool" where
  "cache_ok sc = (pool_ok solve_diagonals_straight_miss (straight_diagonals sc)
                  \<and> pool_ok solve_diagonals_looped_miss (looped_diagonals sc))"




text \<open>
  Two abbreviations of the statements: a point with its three coefficients set to \<open>0\<close>, as
  \<open>check_minimum_size\<close> writes it, and the sizes of the splines of a bundle.
\<close>

definition zero_coefficients :: "SplinePoint \<Rightarrow> SplinePoint" where
  "zero_coefficients p = p\<lparr>pt_b := 0, pt_c := 0, pt_d := 0\<rparr>"

definition spline_sizes :: "CubicSplineN \<Rightarrow> nat list" where
  "spline_sizes n = map CubicSpline_size (m_splines n)"

section \<open>Data of the examples\<close>

text \<open>
  \<open>new_point v\<close> is a point that \<^verbatim>\<open>resize\<close> created and \<^verbatim>\<open>set_point\<close> gave the value
  \<open>v\<close>. \<open>hill_spline\<close> has the values \<open>0, 10, 0\<close>; \<open>hill_solved\<close> and
  \<open>cache_after_hill\<close> are what \<^verbatim>\<open>solve_straight\<close> makes of it and of the empty cache;
  \<open>flat_after_hill\<close> is \<open>hill_solved\<close> after all three values were set to \<open>5\<close> and the
  spline was solved again. \<open>one_spline_bundle\<close> is a bundle of one dimension and three
  points. \<open>seventeen_sizes\<close> are the sizes of the eviction scenario, and
  \<open>sizes_with_a_hit\<close> the requests of a run in which size \<open>3\<close> is used again, a hit,
  before the seventeenth size is inserted;
  \<open>two_point_example\<close> and \<open>one_point_example\<close> have a first point whose coefficients
  \<^verbatim>\<open>set_coefficients\<close> set to \<open>1, 2, 3\<close>.
\<close>

definition new_point :: "real \<Rightarrow> SplinePoint" where
  "new_point v = \<lparr>pt_a = v, pt_b = 0, pt_c = 0, pt_d = 0\<rparr>"

definition hill_spline :: CubicSpline where
  "hill_spline = \<lparr>m_points = [new_point 0, new_point 10, new_point 0], m_spatial_extent = 0\<rparr>"

definition hill_solved :: CubicSpline where
  "hill_solved =
     \<lparr>m_points = [\<lparr>pt_a = 0, pt_b = 15, pt_c = 330 / 49, pt_d = - (575 / 49)\<rparr>,
                  \<lparr>pt_a = 10, pt_b = - (330 / 49), pt_c = 95 / 98, pt_d = - (415 / 98)\<rparr>,
                  \<lparr>pt_a = 0, pt_b = - (35 / 2), pt_c = 20, pt_d = - (5 / 2)\<rparr>],
      m_spatial_extent = 0\<rparr>"

definition flat_after_hill :: CubicSpline where
  "flat_after_hill =
     \<lparr>m_points = [\<lparr>pt_a = 5, pt_b = 15, pt_c = 330 / 49, pt_d = - (575 / 49)\<rparr>,
                  new_point 5, new_point 5],
      m_spatial_extent = 0\<rparr>"

definition cache_after_hill :: SplineSolutionCache where
  "cache_after_hill = \<lparr>straight_diagonals = [[2, 7 / 2, 12 / 7]], looped_diagonals = []\<rparr>"

definition one_spline_bundle :: CubicSplineN where
  "one_spline_bundle =
     \<lparr>m_splines = [\<lparr>m_points = [new_point 0, new_point 1, new_point 2], m_spatial_extent = 0\<rparr>],
      loop = False, m_dirty = False, m_owned_by_actor = False\<rparr>"



definition two_point_example :: CubicSpline where
  "two_point_example =
     \<lparr>m_points = [\<lparr>pt_a = 0, pt_b = 1, pt_c = 2, pt_d = 3\<rparr>, new_point 1], m_spatial_extent = 0\<rparr>"

definition one_point_example :: CubicSpline where
  "one_point_example = \<lparr>m_points = [\<lparr>pt_a = 0, pt_b = 1, pt_c = 2, pt_d = 3\<rparr>], m_spatial_extent = 0\<rparr>"

section \<open>Evaluation of concrete runs\<close>

text \<open>
  The simplifier evaluates a run of the model on concrete data when it is told to evaluate
  the first argument of a bind before the function bound to it.
\<close>

lemma option_bind_weak_cong: "m = m' \<Longrightarrow> Option.bind m f = Option.bind m' f"
  by simp

section \<open>Checked vector access\<close>

lemma vec_at_Some [simp]: "i < length v \<Longrightarrow> vec_at v i = Some (v ! i)"
  by (simp add: vec_at_def)
lemma vec_set_Some [simp]: "i < length v \<Longrightarrow> vec_set v i x = Some (v[i := x])"
  by (simp add: vec_set_def)
lemma vec_modify_Some [simp]: "i < length v \<Longrightarrow> vec_modify v i f = Some (v[i := f (v ! i)])"
  by (simp add: vec_modify_def)
lemma vec_at_None [simp]: "\<not> i < length v \<Longrightarrow> vec_at v i = None"
  by (simp add: vec_at_def)
lemma vec_set_None [simp]: "\<not> i < length v \<Longrightarrow> vec_set v i x = None"
  by (simp add: vec_set_def)
lemma vec_modify_None [simp]: "\<not> i < length v \<Longrightarrow> vec_modify v i f = None"
  by (simp add: vec_modify_def)

lemma size_t_sub_le [simp]: "y \<le> x \<Longrightarrow> size_t_sub x y = x - y"
  by (simp add: size_t_sub_def)

lemma prep_inner_loop_closed:
  "last_n \<le> length out \<Longrightarrow>
   SplineSolutionCache_prep_inner_loop i last_n out =
     Some (map (\<lambda>j. if i \<le> j \<and> j < last_n then 4 else out ! j) [0..<length out])"
proof (induction "last_n - i" arbitrary: i out)
  case 0
  then show ?case
    by (subst SplineSolutionCache_prep_inner_loop.simps) (auto intro!: nth_equalityI)
next
  case (Suc k)
  then have lt: "i < last_n" and len: "i < length out" by auto
  have "SplineSolutionCache_prep_inner_loop i last_n out =
        SplineSolutionCache_prep_inner_loop (i + 1) last_n (out[i := 4])"
    using lt len by (subst SplineSolutionCache_prep_inner_loop.simps) simp
  also have "\<dots> = Some (map (\<lambda>j. if i + 1 \<le> j \<and> j < last_n then 4 else out[i := 4] ! j)
                        [0..<length (out[i := 4])])"
    using Suc.hyps(2) Suc.prems by (intro Suc.hyps(1)) auto
  also have "\<dots> = Some (map (\<lambda>j. if i \<le> j \<and> j < last_n then 4 else out ! j) [0..<length out])"
    using lt by (auto simp: nth_list_update)
  finally show ?case .
qed

lemma looped_init:
  assumes "1 \<le> length ds"
  shows "Option.bind (vec_set ds 0 4) (SplineSolutionCache_prep_inner (length ds)) =
         Some (replicate (length ds) 4)"
proof -
  have 0: "0 < length ds" using assms by auto
  have "map (\<lambda>j. if 1 \<le> j \<and> j < length ds then 4 else ds[0 := 4] ! j) [0..<length ds] =
        replicate (length ds) (4::real)"
  proof (rule nth_equalityI)
    fix j assume "j < length (map (\<lambda>j. if 1 \<le> j \<and> j < length ds then 4 else ds[0 := 4] ! j) [0..<length ds])"
    then show "map (\<lambda>j. if 1 \<le> j \<and> j < length ds then 4 else ds[0 := 4] ! j) [0..<length ds] ! j =
               replicate (length ds) (4::real) ! j"
      by (cases "j = 0") (auto simp: nth_list_update)
  qed simp
  then show ?thesis
    using 0 by (simp add: SplineSolutionCache_prep_inner_def prep_inner_loop_closed)
qed

lemma straight_init:
  assumes "2 \<le> length ds"
  shows "Option.bind (Option.bind (vec_set ds 0 2)
           (SplineSolutionCache_prep_inner (size_t_sub (length ds) 1)))
           (\<lambda>d. vec_set d (size_t_sub (length ds) 1) 2) = Some (straight_start (length ds))"
proof -
  let ?n = "length ds"
  have 0: "0 < ?n" and s: "1 \<le> ?n" and l: "?n - 1 < ?n"
    using assms by auto
  have "(map (\<lambda>j. if 1 \<le> j \<and> j < ?n - 1 then 4 else ds[0 := 2] ! j) [0..<?n])[?n - 1 := 2] =
        straight_start ?n"
    unfolding straight_start_def
  proof (rule nth_equalityI)
    fix j assume "j < length ((map (\<lambda>j. if 1 \<le> j \<and> j < ?n - 1 then 4 else ds[0 := 2] ! j) [0..<?n])[?n - 1 := 2])"
    then show "(map (\<lambda>j. if 1 \<le> j \<and> j < ?n - 1 then 4 else ds[0 := 2] ! j) [0..<?n])[?n - 1 := 2] ! j =
               (replicate ?n 4)[0 := 2, ?n - 1 := 2] ! j"
      by (cases "j = 0") (auto simp: nth_list_update)
  qed simp
  then show ?thesis
    using 0 l s by (simp add: SplineSolutionCache_prep_inner_def prep_inner_loop_closed)
qed

lemma straight_loop_length:
  "solve_diagonals_straight_loop i last_n d = Some d' \<Longrightarrow> length d' = length d"
proof (induction i last_n d rule: solve_diagonals_straight_loop.induct)
  case (1 i last_n diagonals)
  show ?case
  proof (cases "i < size_t_sub last_n 1")
    case False
    with "1.prems" show ?thesis by (subst (asm) solve_diagonals_straight_loop.simps) simp
  next
    case True
    from "1.prems" True obtain di di1 d2 where
      a: "vec_at diagonals i = Some di" "vec_at diagonals (i + 1) = Some di1"
         "vec_set diagonals (i + 1) (di1 - 1 / di) = Some d2"
         "solve_diagonals_straight_loop (i + 1) last_n d2 = Some d'"
      by (subst (asm) solve_diagonals_straight_loop.simps) (auto split: bind_splits)
    from "1.IH"[OF True a] have "length d' = length d2" .
    moreover from a(3) have "length d2 = length diagonals"
      by (auto simp: vec_set_def split: if_splits)
    ultimately show ?thesis by simp
  qed
qed

lemma straight_loop_defined:
  "last_n = length d \<Longrightarrow> 2 \<le> last_n \<Longrightarrow> i \<le> last_n - 1 \<Longrightarrow>
   \<exists>d'. solve_diagonals_straight_loop i last_n d = Some d'"
proof (induction "last_n - 1 - i" arbitrary: i d)
  case 0
  then have "\<not> i < size_t_sub last_n 1" by (auto simp: size_t_sub_def)
  then show ?case
    by (subst solve_diagonals_straight_loop.simps) simp
next
  case (Suc k)
  then have lt: "i < size_t_sub last_n 1" "i < length d" "i + 1 < length d"
    by (auto simp: size_t_sub_def)
  have "\<exists>d'. solve_diagonals_straight_loop (i + 1) last_n (d[i + 1 := d ! (i + 1) - 1 / d ! i]) = Some d'"
    using Suc.hyps(2) Suc.prems by (intro Suc.hyps(1)) auto
  then show ?case
    using lt by (subst solve_diagonals_straight_loop.simps) simp
qed

section \<open>The periodic computation is the specification's elimination\<close>

lemma periodic_step_length: "length (fst (periodic_step n i (d, ce, re))) = length d"
  by (simp add: periodic_step_def Let_def)

lemma fold_periodic_step_length:
  "length (fst (fold (periodic_step n) js st)) = length (fst st)"
proof (induction js arbitrary: st)
  case Nil
  show ?case by simp
next
  case (Cons j js)
  obtain d ce re where st: "st = (d, ce, re)" by (cases st)
  show ?case by (simp add: Cons.IH st periodic_step_length)
qed

lemma looped_loop_spec:
  "length d = n \<Longrightarrow> 2 \<le> n \<Longrightarrow> i \<le> n - 2 \<Longrightarrow>
   solve_diagonals_looped_loop i (n - 2) (n - 1) ce re d =
     Some (case fold (periodic_step n) [i..<n - 2] (d, ce, re) of (d', ce', re') \<Rightarrow> (ce', re', d'))"
proof (induction "n - 2 - i" arbitrary: i d ce re)
  case 0
  then have "\<not> i < n - 2" by auto
  then show ?case
    by (subst solve_diagonals_looped_loop.simps) simp
next
  case (Suc k)
  then have lt: "i < n - 2" and b: "i < length d" "i + 1 < length d" "n - 1 < length d"
    and ne: "i + 1 \<noteq> i" "i \<noteq> n - 1" "i + 1 \<noteq> n - 1"
    by auto
  let ?recip = "1 / d ! i"
  let ?d3 = "d[i + 1 := d ! (i + 1) - ?recip, n - 1 := d ! (n - 1) - re * (ce / d ! i)]"
  have step: "solve_diagonals_looped_loop i (n - 2) (n - 1) ce re d =
        solve_diagonals_looped_loop (i + 1) (n - 2) (n - 1) (0 - ce * ?recip) (0 - re * ?recip) ?d3"
    using lt b ne by (subst solve_diagonals_looped_loop.simps) (simp add: Let_def)
  have ps: "periodic_step n i (d, ce, re) = (?d3, 0 - ce * ?recip, 0 - re * ?recip)"
    using b ne by (simp add: periodic_step_def Let_def)
  have ih: "solve_diagonals_looped_loop (i + 1) (n - 2) (n - 1) (0 - ce * ?recip) (0 - re * ?recip) ?d3 =
        Some (case fold (periodic_step n) [i + 1..<n - 2] (?d3, 0 - ce * ?recip, 0 - re * ?recip) of
                (d', ce', re') \<Rightarrow> (ce', re', d'))"
    using Suc.hyps(2) Suc.prems by (intro Suc.hyps(1)) auto
  have "[i..<n - 2] = i # [i + 1..<n - 2]"
    using lt by (simp add: upt_conv_Cons)
  then have fd: "fold (periodic_step n) [i..<n - 2] (d, ce, re) =
        fold (periodic_step n) [i + 1..<n - 2] (?d3, 0 - ce * ?recip, 0 - re * ?recip)"
    by (simp only: fold.simps o_apply ps)
  show ?case
    unfolding step fd by (rule ih)
qed

lemma looped_miss_spec:
  assumes "2 \<le> length ds"
  shows "solve_diagonals_looped_miss ds =
         Some (periodic_elimination (length ds) (replicate (length ds) 4))"
proof -
  let ?n = "length ds"
  obtain d ce re where f: "fold (periodic_step ?n) [0..<?n - 2] (replicate ?n 4, 1, 1) = (d, ce, re)"
    by (cases "fold (periodic_step ?n) [0..<?n - 2] (replicate ?n 4, 1, 1)")
  have len: "length d = ?n"
    using fold_periodic_step_length[of ?n "[0..<?n - 2]" "(replicate ?n 4, 1, 1)"] by (simp add: f)
  have loop: "solve_diagonals_looped_loop 0 (?n - 2) (?n - 1) 1 1 (replicate ?n 4) = Some (ce, re, d)"
    using looped_loop_spec[of "replicate ?n 4" ?n 0 1 1] assms by (simp add: f)
  have sub: "size_t_sub ?n 1 = ?n - 1" "size_t_sub (?n - 1) 1 = ?n - 2"
    using assms by (auto simp: size_t_sub_def)
  have init: "Option.bind (vec_set ds 0 4) (SplineSolutionCache_prep_inner ?n) = Some (replicate ?n 4)"
    using assms by (intro looped_init) simp
  have "solve_diagonals_looped_miss ds =
        Option.bind (Option.bind (vec_set ds 0 4) (SplineSolutionCache_prep_inner ?n))
          (\<lambda>diagonals. Option.bind (solve_diagonals_looped_loop 0 (?n - 2) (?n - 1) 1 1 diagonals)
             (\<lambda>(cedge, redge, diagonals). Option.bind (vec_at diagonals (?n - 1))
                (\<lambda>de. Option.bind (vec_at diagonals (?n - 2))
                   (\<lambda>ds. vec_set diagonals (?n - 1) (de - redge * ((1 - cedge) / ds))))))"
    using assms sub by (simp add: solve_diagonals_looped_miss_def Let_def)
  also have "\<dots> = Some (d[?n - 1 := d ! (?n - 1) - re * ((1 - ce) / d ! (?n - 2))])"
    using assms len loop by (simp add: init)
  finally show ?thesis
    by (simp add: periodic_elimination_def f)
qed

section \<open>The pools hold what the computation returns\<close>

lemma copy_entry_closed:
  "length entry = n \<Longrightarrow> length out = n \<Longrightarrow>
   copy_entry i n entry out = Some (map (\<lambda>j. if i \<le> j then entry ! j else out ! j) [0..<n])"
proof (induction "n - i" arbitrary: i out)
  case 0
  then have "\<not> i < n" by auto
  moreover have "map (\<lambda>j. if i \<le> j then entry ! j else out ! j) [0..<n] = out"
    using 0 by (intro nth_equalityI) auto
  ultimately show ?case
    by (subst copy_entry.simps) simp
next
  case (Suc k)
  then have lt: "i < n" "i < length entry" "i < length out" by auto
  have "copy_entry i n entry out = copy_entry (i + 1) n entry (out[i := entry ! i])"
    using lt by (subst copy_entry.simps) simp
  also have "\<dots> = Some (map (\<lambda>j. if i + 1 \<le> j then entry ! j else out[i := entry ! i] ! j) [0..<n])"
    using Suc.hyps(2) Suc.prems by (intro Suc.hyps(1)) auto
  also have "map (\<lambda>j. if i + 1 \<le> j then entry ! j else out[i := entry ! i] ! j) [0..<n] =
             map (\<lambda>j. if i \<le> j then entry ! j else out ! j) [0..<n]"
  proof (rule map_cong[OF refl])
    fix j assume "j \<in> set [0..<n]"
    then show "(if i + 1 \<le> j then entry ! j else out[i := entry ! i] ! j) =
               (if i \<le> j then entry ! j else out ! j)"
      using lt by (cases "j = i") auto
  qed
  finally show ?case .
qed

lemma copy_entry_all: "length out = length entry \<Longrightarrow> copy_entry 0 (length entry) entry out = Some entry"
  by (simp add: copy_entry_closed map_nth)

lemma find_in_cache_find:
  "find_in_cache cache out =
     (case find (\<lambda>e. length e = length out) cache of
        None \<Rightarrow> Some (False, out) | Some e \<Rightarrow> Some (True, e))"
  by (induction cache) (auto simp: copy_entry_all)

lemma straight_miss_start:
  assumes "2 \<le> length ds"
  shows "solve_diagonals_straight_miss ds =
         solve_diagonals_straight_loop 1 (length ds)
           ((straight_start (length ds))[1 := straight_start (length ds) ! 1 - 1 / 2])"
proof -
  let ?n = "length ds"
  have l: "1 < length (straight_start ?n)"
    using assms by (simp add: straight_start_def)
  have "solve_diagonals_straight_miss ds =
        Option.bind (Option.bind (Option.bind (vec_set ds 0 2)
           (SplineSolutionCache_prep_inner (size_t_sub ?n 1)))
           (\<lambda>d. vec_set d (size_t_sub ?n 1) 2))
          (\<lambda>diagonals. Option.bind (vec_at diagonals 1)
             (\<lambda>d1. Option.bind (vec_set diagonals 1 (d1 - 1 / 2))
                (solve_diagonals_straight_loop 1 ?n)))"
    by (simp add: solve_diagonals_straight_miss_def Let_def)
  also have "\<dots> = solve_diagonals_straight_loop 1 ?n
           ((straight_start ?n)[1 := straight_start ?n ! 1 - 1 / 2])"
    using l by (simp only: straight_init[OF assms] bind.bind_lunit vec_at_Some vec_set_Some)
  finally show ?thesis .
qed

lemma straight_miss_short: "length ds < 2 \<Longrightarrow> solve_diagonals_straight_miss ds = None"
proof -
  assume a: "length ds < 2"
  consider "length ds = 0" | "length ds = 1" using a by linarith
  then show ?thesis
  proof cases
    case 1
    then show ?thesis by (simp add: solve_diagonals_straight_miss_def)
  next
    case 2
    then obtain x where "ds = [x]" by (cases ds) auto
    then show ?thesis
      by (simp add: solve_diagonals_straight_miss_def SplineSolutionCache_prep_inner_def
          SplineSolutionCache_prep_inner_loop.simps vec_set_def vec_at_def size_t_sub_def)
  qed
qed

lemma straight_miss_size_only:
  "length ds = length ds' \<Longrightarrow> solve_diagonals_straight_miss ds = solve_diagonals_straight_miss ds'"
  by (cases "2 \<le> length ds") (simp_all add: straight_miss_start straight_miss_short)

lemma straight_miss_length:
  assumes "solve_diagonals_straight_miss ds = Some out"
  shows "length out = length ds"
proof -
  have 2: "2 \<le> length ds"
    using assms straight_miss_short[of ds] by (cases "2 \<le> length ds") auto
  from assms have "length out = length ((straight_start (length ds))[1 := straight_start (length ds) ! 1 - 1 / 2])"
    unfolding straight_miss_start[OF 2] by (rule straight_loop_length)
  then show ?thesis by (simp add: straight_start_def)
qed

lemma straight_miss_defined:
  assumes "2 \<le> length ds"
  shows "\<exists>out. solve_diagonals_straight_miss ds = Some out"
  unfolding straight_miss_start[OF assms]
  using assms by (intro straight_loop_defined) (auto simp: straight_start_def)


lemma periodic_elimination_length: "length (periodic_elimination n d0) = length d0"
proof -
  obtain d ce re where f: "fold (periodic_step n) [0..<n - 2] (d0, 1, 1) = (d, ce, re)"
    by (cases "fold (periodic_step n) [0..<n - 2] (d0, 1, 1)")
  have "length d = length d0"
    using fold_periodic_step_length[of n "[0..<n - 2]" "(d0, 1, 1)"] by (simp add: f)
  then show ?thesis by (simp add: periodic_elimination_def f)
qed

lemma looped_miss_short: "length ds < 2 \<Longrightarrow> solve_diagonals_looped_miss ds = None"
proof -
  assume a: "length ds < 2"
  consider "length ds = 0" | "length ds = 1" using a by linarith
  then show ?thesis
  proof cases
    case 1
    then show ?thesis by (simp add: solve_diagonals_looped_miss_def)
  next
    case 2
    then obtain x where "ds = [x]" by (cases ds) auto
    then show ?thesis
      by (simp add: solve_diagonals_looped_miss_def SplineSolutionCache_prep_inner_def
          SplineSolutionCache_prep_inner_loop.simps solve_diagonals_looped_loop.simps
          vec_set_def vec_at_def size_t_sub_def Let_def cong: option_bind_weak_cong)
  qed
qed

lemma looped_miss_size_only:
  "length ds = length ds' \<Longrightarrow> solve_diagonals_looped_miss ds = solve_diagonals_looped_miss ds'"
  by (cases "2 \<le> length ds") (simp_all add: looped_miss_spec looped_miss_short)

lemma looped_miss_length:
  assumes "solve_diagonals_looped_miss ds = Some out"
  shows "length out = length ds"
proof -
  have 2: "2 \<le> length ds"
    using assms looped_miss_short[of ds] by (cases "2 \<le> length ds") auto
  from assms have "out = periodic_elimination (length ds) (replicate (length ds) 4)"
    by (simp add: looped_miss_spec[OF 2])
  then show ?thesis
    by (simp add: periodic_elimination_length)
qed

lemma pool_ok_add:
  "pool_ok miss pool \<Longrightarrow> miss out = Some out \<Longrightarrow> pool_ok miss (add_to_cache pool out)"
  by (auto simp: pool_ok_def add_to_cache_def list_all_iff dest: in_set_butlastD)

lemma find_Some_pool_ok:
  "pool_ok miss pool \<Longrightarrow> find (\<lambda>e. length e = n) pool = Some e \<Longrightarrow> miss e = Some e \<and> length e = n"
  by (auto simp: pool_ok_def list_all_iff find_Some_iff)

lemma solve_diagonals_straight_ok:
  assumes "cache_ok sc"
  shows "map_option snd (solve_diagonals_straight sc ds) = solve_diagonals_straight_miss ds"
    and "solve_diagonals_straight sc ds = Some (sc', out) \<Longrightarrow> cache_ok sc'"
proof -
  let ?pool = "straight_diagonals sc"
  have pk: "pool_ok solve_diagonals_straight_miss ?pool"
    using assms by (simp add: cache_ok_def)
  show "map_option snd (solve_diagonals_straight sc ds) = solve_diagonals_straight_miss ds"
  proof (cases "find (\<lambda>e. length e = length ds) ?pool")
    case None
    then show ?thesis
      by (cases "solve_diagonals_straight_miss ds")
         (simp_all add: solve_diagonals_straight_def find_in_cache_find)
  next
    case (Some e)
    from find_Some_pool_ok[OF pk Some] have "solve_diagonals_straight_miss e = Some e" "length e = length ds"
      by simp_all
    then have "solve_diagonals_straight_miss ds = Some e"
      using straight_miss_size_only[of e ds] by simp
    then show ?thesis
      by (simp add: solve_diagonals_straight_def find_in_cache_find Some)
  qed
  show "cache_ok sc'" if r: "solve_diagonals_straight sc ds = Some (sc', out)"
  proof (cases "find (\<lambda>e. length e = length ds) ?pool")
    case None
    from r obtain o' where m: "solve_diagonals_straight_miss ds = Some o'"
      and sc': "sc' = sc\<lparr>straight_diagonals := add_to_cache ?pool o'\<rparr>"
      by (cases "solve_diagonals_straight_miss ds")
         (auto simp: solve_diagonals_straight_def find_in_cache_find None)
    have "solve_diagonals_straight_miss o' = Some o'"
      using straight_miss_size_only[OF straight_miss_length[OF m]] m by simp
    then show ?thesis
      using assms pk by (simp add: sc' cache_ok_def pool_ok_add)
  next
    case (Some e)
    with r have "sc' = sc"
      by (simp add: solve_diagonals_straight_def find_in_cache_find)
    then show ?thesis using assms by simp
  qed
qed

lemma solve_diagonals_looped_ok:
  assumes "cache_ok sc"
  shows "map_option snd (solve_diagonals_looped sc ds) = solve_diagonals_looped_miss ds"
    and "solve_diagonals_looped sc ds = Some (sc', out) \<Longrightarrow> cache_ok sc'"
proof -
  let ?pool = "looped_diagonals sc"
  have pk: "pool_ok solve_diagonals_looped_miss ?pool"
    using assms by (simp add: cache_ok_def)
  show "map_option snd (solve_diagonals_looped sc ds) = solve_diagonals_looped_miss ds"
  proof (cases "find (\<lambda>e. length e = length ds) ?pool")
    case None
    then show ?thesis
      by (cases "solve_diagonals_looped_miss ds")
         (simp_all add: solve_diagonals_looped_def find_in_cache_find)
  next
    case (Some e)
    from find_Some_pool_ok[OF pk Some] have "solve_diagonals_looped_miss e = Some e" "length e = length ds"
      by simp_all
    then have "solve_diagonals_looped_miss ds = Some e"
      using looped_miss_size_only[of e ds] by simp
    then show ?thesis
      by (simp add: solve_diagonals_looped_def find_in_cache_find Some)
  qed
  show "cache_ok sc'" if r: "solve_diagonals_looped sc ds = Some (sc', out)"
  proof (cases "find (\<lambda>e. length e = length ds) ?pool")
    case None
    from r obtain o' where m: "solve_diagonals_looped_miss ds = Some o'"
      and sc': "sc' = sc\<lparr>looped_diagonals := add_to_cache ?pool o'\<rparr>"
      by (cases "solve_diagonals_looped_miss ds")
         (auto simp: solve_diagonals_looped_def find_in_cache_find None)
    have "solve_diagonals_looped_miss o' = Some o'"
      using looped_miss_size_only[OF looped_miss_length[OF m]] m by simp
    then show ?thesis
      using assms pk by (simp add: sc' cache_ok_def pool_ok_add)
  next
    case (Some e)
    with r have "sc' = sc"
      by (simp add: solve_diagonals_looped_def find_in_cache_find)
    then show ?thesis using assms by simp
  qed
qed

lemma cache_reachable_ok: "cache_reachable sc \<Longrightarrow> cache_ok sc"
proof (induction rule: cache_reachable.induct)
  case initial
  show ?case by (simp add: cache_ok_def pool_ok_def initial_cache_def)
next
  case (straight sc ds sc' out)
  then show ?case by (auto intro: solve_diagonals_straight_ok(2))
next
  case (looped sc ds sc' out)
  then show ?case by (auto intro: solve_diagonals_looped_ok(2))
qed

section \<open>The open computation is the specification's elimination\<close>

lemma straight_loop_spec:
  "length d = n \<Longrightarrow> 2 \<le> n \<Longrightarrow> i \<le> n - 1 \<Longrightarrow>
   solve_diagonals_straight_loop i n d = Some (fold open_step [i..<n - 1] d)"
proof (induction "n - 1 - i" arbitrary: i d)
  case 0
  then have "\<not> i < size_t_sub n 1" and e: "fold open_step [i..<n - 1] d = d"
    by (auto simp: size_t_sub_def)
  then show ?case
    unfolding e by (subst solve_diagonals_straight_loop.simps) simp
next
  case (Suc k)
  then have lt: "i < size_t_sub n 1" "i < n - 1" and b: "i < length d" "i + 1 < length d"
    by (auto simp: size_t_sub_def)
  have step: "solve_diagonals_straight_loop i n d = solve_diagonals_straight_loop (i + 1) n (open_step i d)"
    using lt b by (subst solve_diagonals_straight_loop.simps) (simp add: open_step_def)
  have ih: "solve_diagonals_straight_loop (i + 1) n (open_step i d) =
            Some (fold open_step [i + 1..<n - 1] (open_step i d))"
    using Suc.hyps(2) Suc.prems by (intro Suc.hyps(1)) (auto simp: open_step_def)
  have "[i..<n - 1] = i # [i + 1..<n - 1]"
    using lt(2) by (simp add: upt_conv_Cons)
  then have fd: "fold open_step [i..<n - 1] d = fold open_step [i + 1..<n - 1] (open_step i d)"
    by (simp only: fold.simps o_apply)
  show ?case
    unfolding step fd by (rule ih)
qed

lemma straight_miss_spec:
  assumes "2 \<le> length ds"
  shows "solve_diagonals_straight_miss ds = Some (open_elimination (length ds))"
  unfolding straight_miss_start[OF assms] open_elimination_def
  using assms by (intro straight_loop_spec) (auto simp: straight_start_def)

section \<open>The solution cache\<close>

text \<open>The equations that evaluate a run of the cache on concrete vectors.\<close>

lemmas cache_eval =
  solve_diagonals_straight_def solve_diagonals_straight_miss_def solve_diagonals_straight_loop.simps
  solve_diagonals_looped_def solve_diagonals_looped_miss_def solve_diagonals_looped_loop.simps
  SplineSolutionCache_prep_inner_def SplineSolutionCache_prep_inner_loop.simps
  copy_entry.simps add_to_cache_def solution_cache_limit_def initial_cache_def
  vec_at_def vec_set_def size_t_sub_def Let_def

lemma straight_3_from_initial:
  "solve_diagonals_straight initial_cache [0, 0, 0] =
     Some (\<lparr>straight_diagonals = [[2, 7 / 2, 12 / 7]], looped_diagonals = []\<rparr>, [2, 7 / 2, 12 / 7])"
  by (simp add: cache_eval cong: option_bind_weak_cong)

lemma looped_3_after_straight_3:
  "solve_diagonals_looped \<lparr>straight_diagonals = [[2, 7 / 2, 12 / 7]], looped_diagonals = []\<rparr> [0, 0, 0] =
     Some (\<lparr>straight_diagonals = [[2, 7 / 2, 12 / 7]], looped_diagonals = [[4, 15 / 4, 23 / 6]]\<rparr>,
           [4, 15 / 4, 23 / 6])"
  by (simp add: cache_eval cong: option_bind_weak_cong)

lemma cache_reachable_example:
  "cache_reachable \<lparr>straight_diagonals = [[2, 7 / 2, 12 / 7]], looped_diagonals = [[4, 15 / 4, 23 / 6]]\<rparr>"
  by (rule cache_reachable.looped[OF cache_reachable.straight[OF cache_reachable.initial
        straight_3_from_initial] looped_3_after_straight_3])

text \<open>
  C5. For every \<open>n \<ge> 3\<close> the periodic diagonal solve computes the specified elimination:
  from the diagonal \<open>4, \<dots>, 4\<close> and \<open>cedge = redge = 1\<close>, the steps \<open>i = 0, \<dots>, n - 3\<close>
  of \<open>periodic_step\<close>, then the final correction of \<open>d[n-1]\<close>. This is what the
  computation of lines 96--124 returns on a vector of \<open>n\<close> entries, whatever they were,
  and what the member function returns in every state the cache can reach, hit or miss.
\<close>

theorem periodic_diagonals_are_specified_elimination:
  assumes "3 \<le> length ds"
  shows "solve_diagonals_looped_miss ds =
           Some (periodic_elimination (length ds) (replicate (length ds) 4))
       \<and> (cache_reachable sc \<longrightarrow>
            map_option snd (solve_diagonals_looped sc ds) =
              Some (periodic_elimination (length ds) (replicate (length ds) 4)))"
  using assms
  by (simp add: looped_miss_spec solve_diagonals_looped_ok(1) cache_reachable_ok)

theorem periodic_diagonals_are_specified_elimination_witness:
  "3 \<le> length [0, 0, 0, 0 :: real]
   \<and> cache_reachable \<lparr>straight_diagonals = [[2, 7 / 2, 12 / 7]], looped_diagonals = [[4, 15 / 4, 23 / 6]]\<rparr>
   \<and> periodic_elimination 4 (replicate 4 4) = [4, 15 / 4, 56 / 15, 223 / 60]
   \<and> solve_diagonals_looped_miss [0, 0, 0, 0] = Some [4, 15 / 4, 56 / 15, 223 / 60]
   \<and> map_option snd (solve_diagonals_looped
        \<lparr>straight_diagonals = [[2, 7 / 2, 12 / 7]], looped_diagonals = [[4, 15 / 4, 23 / 6]]\<rparr> [0, 0, 0, 0])
       = Some [4, 15 / 4, 56 / 15, 223 / 60]"
proof -
  have h: "3 \<le> length [0, 0, 0, 0 :: real]" by simp
  have pe: "periodic_elimination 4 (replicate 4 4) = [4, 15 / 4, 56 / 15, 223 / 60]"
    by (simp add: periodic_elimination_def periodic_step_def Let_def eval_nat_numeral)
  have len: "length [0, 0, 0, 0 :: real] = 4" by simp
  note t = periodic_diagonals_are_specified_elimination[OF h,
      of "\<lparr>straight_diagonals = [[2, 7 / 2, 12 / 7]], looped_diagonals = [[4, 15 / 4, 23 / 6]]\<rparr>",
      unfolded len pe]
  show ?thesis
    using h cache_reachable_example pe t by blast
qed

text \<open>
  C8. Cache transparency: in any two states that the cache can reach, and for any two
  vectors of equal size, the diagonals that \<open>solve_diagonals_straight\<close> returns are the
  same, and so are those of \<open>solve_diagonals_looped\<close>; they are what the computation of a
  miss returns on a vector of that size. A hit and a miss cannot be told apart by the
  diagonals, which depend on the size and the mode alone.
\<close>

theorem cache_transparency:
  assumes "cache_reachable sc1" and "cache_reachable sc2" and "length ds1 = length ds2"
  shows "map_option snd (solve_diagonals_straight sc1 ds1) =
           map_option snd (solve_diagonals_straight sc2 ds2)
       \<and> map_option snd (solve_diagonals_straight sc1 ds1) = solve_diagonals_straight_miss ds2
       \<and> map_option snd (solve_diagonals_looped sc1 ds1) =
           map_option snd (solve_diagonals_looped sc2 ds2)
       \<and> map_option snd (solve_diagonals_looped sc1 ds1) = solve_diagonals_looped_miss ds2"
  using assms
  by (simp add: solve_diagonals_straight_ok(1) solve_diagonals_looped_ok(1) cache_reachable_ok
      straight_miss_size_only[of ds1 ds2] looped_miss_size_only[of ds1 ds2])

theorem cache_transparency_witness:
  "cache_reachable \<lparr>straight_diagonals = [[2, 7 / 2, 12 / 7]], looped_diagonals = [[4, 15 / 4, 23 / 6]]\<rparr>
   \<and> cache_reachable initial_cache
   \<and> length [0, 0, 0 :: real] = length [1, 2, 3 :: real]
   \<and> map_option snd (solve_diagonals_straight
        \<lparr>straight_diagonals = [[2, 7 / 2, 12 / 7]], looped_diagonals = [[4, 15 / 4, 23 / 6]]\<rparr> [0, 0, 0])
       = map_option snd (solve_diagonals_straight initial_cache [1, 2, 3])
   \<and> map_option snd (solve_diagonals_looped
        \<lparr>straight_diagonals = [[2, 7 / 2, 12 / 7]], looped_diagonals = [[4, 15 / 4, 23 / 6]]\<rparr> [0, 0, 0])
       = map_option snd (solve_diagonals_looped initial_cache [1, 2, 3])
   \<and> map_option snd (solve_diagonals_straight initial_cache [1, 2, 3]) = Some [2, 7 / 2, 12 / 7]
   \<and> map_option snd (solve_diagonals_looped initial_cache [1, 2, 3]) = Some [4, 15 / 4, 23 / 6]"
proof -
  have l: "length [0, 0, 0 :: real] = length [1, 2, 3 :: real]" by simp
  have s: "map_option snd (solve_diagonals_straight initial_cache [1, 2, 3]) = Some [2, 7 / 2, 12 / 7]"
    by (simp add: cache_eval cong: option_bind_weak_cong)
  have p: "map_option snd (solve_diagonals_looped initial_cache [1, 2, 3]) = Some [4, 15 / 4, 23 / 6]"
    by (simp add: cache_eval cong: option_bind_weak_cong)
  note t = cache_transparency[OF cache_reachable_example cache_reachable.initial l]
  show ?thesis
    using t cache_reachable_example cache_reachable.initial l s p by blast
qed

subsection \<open>The bound of a pool\<close>




























section \<open>The spline and the bundle\<close>

text \<open>The equations that evaluate a run of a spline or a bundle on concrete data.\<close>

lemmas spline_eval =
  check_minimum_size_def check_minimum_size_loop.simps loop_space_difference_def
  CubicSpline_prep_inner_def CubicSpline_prep_inner_loop.simps
  set_results_def set_results_divide.simps set_results_points.simps UNNAN_def
  solve_looped_def solve_looped_loop.simps
  solve_straight_def solve_straight_rhs_def solve_straight_eliminate_def solve_straight_loop.simps
  CubicSpline_set_point_def CubicSpline_set_coefficients_def CubicSpline_resize_def
  CubicSpline_size_def vec_resize_def default_SplinePoint_def default_CubicSpline_def
  vec_modify_def

lemmas evaluate_eval =
  CubicSpline_evaluate_def CubicSpline_evaluate_tail_def
  CubicSpline_evaluate_derivative_def CubicSpline_evaluate_derivative_tail_def
  static_cast_int_def static_cast_size_t_def wrap_down.simps wrap_up.simps
  vec_at_def size_t_sub_def Let_def

lemmas bundle_eval =
  CubicSplineN_solve_def CubicSplineN_set_point_def CubicSplineN_set_point_loop.simps
  CubicSplineN_resize_def CubicSplineN_redimension_def CubicSplineN_size_def
  CubicSplineN_dimension_def

lemmas example_defs = new_point_def hill_spline_def hill_solved_def flat_after_hill_def
  cache_after_hill_def one_spline_bundle_def initial_cache_def

subsection \<open>The conversions of the parameter\<close>

lemma static_cast_int_negative:
  assumes "- (2 ^ 31) - 1 < t" and "t \<le> - 1"
  shows "static_cast_int t = Some \<lceil>t\<rceil>" and "\<lceil>t\<rceil> \<le> - 1" and "- (2 ^ 31) \<le> \<lceil>t\<rceil>"
proof -
  show u: "\<lceil>t\<rceil> \<le> - 1"
    using assms(2) by (simp add: ceiling_le_iff)
  have "real_of_int (- (2 ^ 31) - 1) < t"
    using assms(1) by simp
  then have "- (2 ^ 31) - 1 < \<lceil>t\<rceil>"
    by (simp only: less_ceiling_iff)
  then show l: "- (2 ^ 31) \<le> \<lceil>t\<rceil>"
    by simp
  have "\<not> 0 \<le> t" using assms(2) by simp
  then show "static_cast_int t = Some \<lceil>t\<rceil>"
    using u l by (simp add: static_cast_int_def)
qed

lemma static_cast_size_t_negative:
  assumes "z \<le> - 1" and "- (2 ^ 31) \<le> z"
  shows "2 ^ 64 - 2 ^ 31 \<le> static_cast_size_t z"
proof -
  have "z mod 2 ^ 64 = (z + 2 ^ 64) mod 2 ^ 64"
    by simp
  also have "\<dots> = z + 2 ^ 64"
    using assms by (intro mod_pos_pos_trivial) simp_all
  finally have "static_cast_size_t z = nat (z + 2 ^ 64)"
    by (simp add: static_cast_size_t_def)
  then show ?thesis
    using assms by simp
qed

lemma static_cast_int_small:
  assumes "- 1 < t" and "t < 1"
  shows "static_cast_int t = Some 0"
proof (cases "0 \<le> t")
  case True
  then have "\<lfloor>t\<rfloor> = 0" using assms(2) by (simp add: floor_eq_iff)
  then show ?thesis using True by (simp add: static_cast_int_def)
next
  case False
  then have "\<lceil>t\<rceil> = 0" using assms(1) by (simp add: ceiling_eq_iff)
  then show ?thesis using False by (simp add: static_cast_int_def)
qed

text \<open>
  Below the range of \<^verbatim>\<open>int\<close> the conversion of line 340 has no defined result, with
  or without loop.
\<close>

lemma static_cast_int_below_range:
  assumes "t \<le> - (2 ^ 31) - 1"
  shows "static_cast_int t = None"
proof -
  have "\<lceil>t\<rceil> \<le> - (2 ^ 31) - 1"
    using assms by (simp add: ceiling_le_iff)
  moreover have "\<not> 0 \<le> t" using assms by simp
  ultimately show ?thesis
    by (simp add: static_cast_int_def)
qed

lemma evaluate_derivative_below_int_range:
  assumes "m_points s \<noteq> []" and "t \<le> - (2 ^ 31) - 1"
  shows "CubicSpline_evaluate_derivative s t lp = None"
  using assms by (simp add: CubicSpline_evaluate_derivative_def static_cast_int_below_range)

lemma one_point_derivative_inside:
  "CubicSpline_evaluate_derivative one_point_example (- 1 / 2) False = Some 0"
  by (simp add: one_point_example_def CubicSpline_evaluate_derivative_def
      static_cast_int_small static_cast_size_t_def size_t_sub_def)

text \<open>
  C10. For every non-empty spline, \<open>evaluate_derivative\<close> without loop returns \<open>0\<close> for
  every \<open>t \<le> -1\<close> that \<^verbatim>\<open>static_cast<int>\<close> converts, \<open>- 2 ^ 31 - 1 < t\<close>: the
  integer part of \<open>t\<close> is negative, and as a \<^verbatim>\<open>size_t\<close> it is at least
  \<open>2 ^ 64 - 2 ^ 31\<close>, above \<open>n - 1\<close> (a vector has at most \<open>2 ^ 63\<close> points). For
  \<open>-1 < t < 0\<close> the integer part is \<open>0\<close>: with two points or more the polynomial of
  segment \<open>0\<close> is evaluated at the negative fraction \<open>t\<close>; with one point \<open>0\<close> is
  \<open>n - 1\<close>, the same branch is taken and the result is \<open>0\<close> again.
\<close>

theorem evaluate_derivative_negative_parameter:
  assumes "m_points s \<noteq> []" and "length (m_points s) \<le> 2 ^ 63"
  shows "(- (2 ^ 31) - 1 < t \<and> t \<le> - 1 \<longrightarrow> CubicSpline_evaluate_derivative s t False = Some 0)
       \<and> (- 1 < t \<and> t < 0 \<and> 2 \<le> length (m_points s) \<longrightarrow>
            CubicSpline_evaluate_derivative s t False =
              Some (pt_b (m_points s ! 0) + 2 * pt_c (m_points s ! 0) * t
                    + 3 * pt_d (m_points s ! 0) * (t * t)))
       \<and> (- 1 < t \<and> t < 0 \<and> length (m_points s) = 1 \<longrightarrow>
            CubicSpline_evaluate_derivative s t False = Some 0)"
proof (intro conjI impI)
  assume a: "- (2 ^ 31) - 1 < t \<and> t \<le> - 1"
  note c = static_cast_int_negative[of t]
  have "2 ^ 64 - 2 ^ 31 \<le> static_cast_size_t \<lceil>t\<rceil>"
    using a c(2,3) by (intro static_cast_size_t_negative) simp_all
  moreover have "size_t_sub (length (m_points s)) 1 \<le> 2 ^ 63"
    using assms by (cases "m_points s") (simp_all add: size_t_sub_def)
  ultimately have "size_t_sub (length (m_points s)) 1 \<le> static_cast_size_t \<lceil>t\<rceil>"
    by simp
  then show "CubicSpline_evaluate_derivative s t False = Some 0"
    using assms(1) a c(1) by (simp add: CubicSpline_evaluate_derivative_def)
next
  assume a: "- 1 < t \<and> t < 0 \<and> 2 \<le> length (m_points s)"
  then have c: "static_cast_int t = Some 0"
    by (intro static_cast_int_small) simp_all
  have n: "\<not> size_t_sub (length (m_points s)) 1 \<le> static_cast_size_t 0"
    using a by (simp add: static_cast_size_t_def size_t_sub_def)
  have l: "0 < length (m_points s)" using assms(1) by simp
  show "CubicSpline_evaluate_derivative s t False =
          Some (pt_b (m_points s ! 0) + 2 * pt_c (m_points s ! 0) * t
                + 3 * pt_d (m_points s ! 0) * (t * t))"
    using assms(1) n l
    by (simp add: CubicSpline_evaluate_derivative_def c CubicSpline_evaluate_derivative_tail_def
        static_cast_size_t_def Let_def)
next
  assume a: "- 1 < t \<and> t < 0 \<and> length (m_points s) = 1"
  then have c: "static_cast_int t = Some 0"
    by (intro static_cast_int_small) simp_all
  show "CubicSpline_evaluate_derivative s t False = Some 0"
    using assms(1) a
    by (simp add: CubicSpline_evaluate_derivative_def c static_cast_size_t_def size_t_sub_def)
qed

theorem evaluate_derivative_negative_parameter_witness:
  "m_points two_point_example \<noteq> [] \<and> length (m_points two_point_example) \<le> 2 ^ 63
   \<and> - (2 ^ 31) - 1 < (- 3 / 2 :: real) \<and> (- 3 / 2 :: real) \<le> - 1
   \<and> CubicSpline_evaluate_derivative two_point_example (- 3 / 2) False = Some 0
   \<and> - 1 < (- 1 / 2 :: real) \<and> (- 1 / 2 :: real) < 0 \<and> 2 \<le> length (m_points two_point_example)
   \<and> CubicSpline_evaluate_derivative two_point_example (- 1 / 2) False = Some (5 / 4)
   \<and> m_points one_point_example \<noteq> [] \<and> length (m_points one_point_example) = 1
   \<and> CubicSpline_evaluate_derivative one_point_example (- 1 / 2) False = Some 0"
proof -
  let ?s = two_point_example
  have ne: "m_points ?s \<noteq> []" and len: "length (m_points ?s) \<le> 2 ^ 63"
    and l2: "2 \<le> length (m_points ?s)"
    by (simp_all add: two_point_example_def)
  have ne1: "m_points one_point_example \<noteq> []" and len1: "length (m_points one_point_example) \<le> 2 ^ 63"
    and l1: "length (m_points one_point_example) = 1"
    by (simp_all add: one_point_example_def)
  have r1: "- (2 ^ 31) - 1 < (- 3 / 2 :: real)" "(- 3 / 2 :: real) \<le> - 1"
    and r2: "- 1 < (- 1 / 2 :: real)" "(- 1 / 2 :: real) < 0"
    by simp_all
  have a: "CubicSpline_evaluate_derivative ?s (- 3 / 2) False = Some 0"
    using evaluate_derivative_negative_parameter[OF ne len, of "- 3 / 2"] r1 by blast
  have "CubicSpline_evaluate_derivative ?s (- 1 / 2) False =
        Some (pt_b (m_points ?s ! 0) + 2 * pt_c (m_points ?s ! 0) * (- 1 / 2)
              + 3 * pt_d (m_points ?s ! 0) * ((- 1 / 2) * (- 1 / 2)))"
    using evaluate_derivative_negative_parameter[OF ne len, of "- 1 / 2"] r2 l2 by blast
  then have b: "CubicSpline_evaluate_derivative ?s (- 1 / 2) False = Some (5 / 4)"
    by (simp add: two_point_example_def)
  have c: "CubicSpline_evaluate_derivative one_point_example (- 1 / 2) False = Some 0"
    using evaluate_derivative_negative_parameter[OF ne1 len1, of "- 1 / 2"] r2 l1 by blast
  show ?thesis
    by (intro conjI ne len r1 r2 l2 a b ne1 l1 c)
qed

text \<open>
  The property does not hold of every non-empty spline and every negative \<open>t\<close>. A spline
  of one point whose coefficients \<^verbatim>\<open>set_coefficients\<close> set to \<open>1, 2, 3\<close> returns
  \<open>0\<close> at \<open>t = - 1 / 2\<close>, where the polynomial of segment \<open>0\<close> has the value
  \<open>5 / 4\<close>; and at \<open>t = - 2 ^ 32\<close>, which no \<^verbatim>\<open>int\<close> holds, the conversion of
  line 340 is undefined and no result is returned.
\<close>

theorem evaluate_derivative_negative_parameter_counterexample:
  "m_points one_point_example \<noteq> []
   \<and> CubicSpline_evaluate_derivative one_point_example (- 1 / 2) False = Some 0
   \<and> pt_b (m_points one_point_example ! 0) + 2 * pt_c (m_points one_point_example ! 0) * (- 1 / 2)
       + 3 * pt_d (m_points one_point_example ! 0) * ((- 1 / 2) * (- 1 / 2)) = 5 / 4
   \<and> m_points two_point_example \<noteq> []
   \<and> CubicSpline_evaluate_derivative two_point_example (- (2 ^ 32)) False = None
   \<and> \<not> (\<forall>s t. m_points s \<noteq> [] \<longrightarrow>
          (t \<le> - 1 \<longrightarrow> CubicSpline_evaluate_derivative s t False = Some 0)
          \<and> (- 1 < t \<and> t < 0 \<longrightarrow>
               CubicSpline_evaluate_derivative s t False =
                 Some (pt_b (m_points s ! 0) + 2 * pt_c (m_points s ! 0) * t
                       + 3 * pt_d (m_points s ! 0) * (t * t))))"
proof -
  have ne1: "m_points one_point_example \<noteq> []"
    by (simp add: one_point_example_def)
  have p: "pt_b (m_points one_point_example ! 0) + 2 * pt_c (m_points one_point_example ! 0) * (- 1 / 2)
       + 3 * pt_d (m_points one_point_example ! 0) * ((- 1 / 2) * (- 1 / 2)) = 5 / 4"
    by (simp add: one_point_example_def)
  have ne2: "m_points two_point_example \<noteq> []"
    by (simp add: two_point_example_def)
  have u: "CubicSpline_evaluate_derivative two_point_example (- (2 ^ 32)) False = None"
    using ne2 by (intro evaluate_derivative_below_int_range) simp_all
  have n: "\<not> (\<forall>s t. m_points s \<noteq> [] \<longrightarrow>
          (t \<le> - 1 \<longrightarrow> CubicSpline_evaluate_derivative s t False = Some 0)
          \<and> (- 1 < t \<and> t < 0 \<longrightarrow>
               CubicSpline_evaluate_derivative s t False =
                 Some (pt_b (m_points s ! 0) + 2 * pt_c (m_points s ! 0) * t
                       + 3 * pt_d (m_points s ! 0) * (t * t))))"
  proof
    assume a: "\<forall>s t. m_points s \<noteq> [] \<longrightarrow>
          (t \<le> - 1 \<longrightarrow> CubicSpline_evaluate_derivative s t False = Some 0)
          \<and> (- 1 < t \<and> t < 0 \<longrightarrow>
               CubicSpline_evaluate_derivative s t False =
                 Some (pt_b (m_points s ! 0) + 2 * pt_c (m_points s ! 0) * t
                       + 3 * pt_d (m_points s ! 0) * (t * t)))"
    have r: "- 1 < (- 1 / 2 :: real) \<and> (- 1 / 2 :: real) < 0" by simp
    from a ne1 r have "CubicSpline_evaluate_derivative one_point_example (- 1 / 2) False =
        Some (pt_b (m_points one_point_example ! 0) + 2 * pt_c (m_points one_point_example ! 0) * (- 1 / 2)
              + 3 * pt_d (m_points one_point_example ! 0) * ((- 1 / 2) * (- 1 / 2)))"
      by blast
    then show False
      unfolding p one_point_derivative_inside by simp
  qed
  show ?thesis
    by (intro conjI ne1 one_point_derivative_inside p ne2 u n)
qed

subsection \<open>Evaluation before the second point\<close>

lemma evaluate_below_one:
  assumes "m_points s \<noteq> []" and "- 1 < t" and "t < 1"
  shows "CubicSpline_evaluate s t False = Some (pt_a (m_points s ! 0))"
  using assms by (simp add: CubicSpline_evaluate_def static_cast_int_small)

lemma static_cast_int_positive:
  assumes "1 \<le> t" and "t < 2 ^ 31"
  shows "static_cast_int t = Some \<lfloor>t\<rfloor>" and "1 \<le> \<lfloor>t\<rfloor>" and "\<lfloor>t\<rfloor> < 2 ^ 31"
    and "static_cast_size_t \<lfloor>t\<rfloor> = nat \<lfloor>t\<rfloor>"
proof -
  show l: "1 \<le> \<lfloor>t\<rfloor>"
    using assms(1) by (simp add: le_floor_iff)
  have "t < real_of_int (2 ^ 31)" using assms(2) by simp
  then show u: "\<lfloor>t\<rfloor> < 2 ^ 31"
    by (simp only: floor_less_iff)
  show "static_cast_int t = Some \<lfloor>t\<rfloor>"
    using assms(1) l u by (simp add: static_cast_int_def)
  have "\<lfloor>t\<rfloor> mod 2 ^ 64 = \<lfloor>t\<rfloor>"
    using l u by (intro mod_pos_pos_trivial) simp_all
  then show "static_cast_size_t \<lfloor>t\<rfloor> = nat \<lfloor>t\<rfloor>"
    by (simp add: static_cast_size_t_def)
qed

lemma evaluate_without_loop:
  assumes "m_points s \<noteq> []" and "- (2 ^ 31) - 1 < t" and "t < 2 ^ 31"
  shows "t < 1 \<longrightarrow> CubicSpline_evaluate s t False = Some (pt_a (m_points s ! 0))"
    and "1 \<le> t \<and> length (m_points s) - 1 \<le> nat \<lfloor>t\<rfloor> \<longrightarrow>
           CubicSpline_evaluate s t False = Some (pt_a (m_points s ! (length (m_points s) - 1)))"
    and "1 \<le> t \<and> nat \<lfloor>t\<rfloor> < length (m_points s) - 1 \<longrightarrow>
           CubicSpline_evaluate s t False =
             Some (pt_a (m_points s ! nat \<lfloor>t\<rfloor>)
                   + pt_b (m_points s ! nat \<lfloor>t\<rfloor>) * (t - real_of_int \<lfloor>t\<rfloor>)
                   + pt_c (m_points s ! nat \<lfloor>t\<rfloor>) * ((t - real_of_int \<lfloor>t\<rfloor>) * (t - real_of_int \<lfloor>t\<rfloor>))
                   + pt_d (m_points s ! nat \<lfloor>t\<rfloor>)
                     * ((t - real_of_int \<lfloor>t\<rfloor>) * (t - real_of_int \<lfloor>t\<rfloor>) * (t - real_of_int \<lfloor>t\<rfloor>)))"
proof -
  have sub: "size_t_sub (length (m_points s)) 1 = length (m_points s) - 1"
    and pos: "0 < length (m_points s)" and last: "length (m_points s) - 1 < length (m_points s)"
    using assms(1) by (simp_all add: size_t_sub_def Suc_leI)
  show "t < 1 \<longrightarrow> CubicSpline_evaluate s t False = Some (pt_a (m_points s ! 0))"
  proof
    assume t1: "t < 1"
    show "CubicSpline_evaluate s t False = Some (pt_a (m_points s ! 0))"
    proof (cases "- 1 < t")
      case True
      then show ?thesis using assms(1) t1 by (intro evaluate_below_one)
    next
      case False
      then have c: "static_cast_int t = Some \<lceil>t\<rceil>" "\<lceil>t\<rceil> \<le> - 1"
        using static_cast_int_negative[of t] assms(2) by simp_all
      have "t \<le> 0" using False by simp
      then show ?thesis
        using assms(1) c by (simp add: CubicSpline_evaluate_def)
    qed
  qed
  show "1 \<le> t \<and> length (m_points s) - 1 \<le> nat \<lfloor>t\<rfloor> \<longrightarrow>
           CubicSpline_evaluate s t False = Some (pt_a (m_points s ! (length (m_points s) - 1)))"
  proof
    assume a: "1 \<le> t \<and> length (m_points s) - 1 \<le> nat \<lfloor>t\<rfloor>"
    note c = static_cast_int_positive[of t]
    have "\<not> \<lfloor>t\<rfloor> \<le> 0" using c(2) a by simp
    then show "CubicSpline_evaluate s t False = Some (pt_a (m_points s ! (length (m_points s) - 1)))"
      using assms(1,3) a c(1,4) last sub
      by (simp add: CubicSpline_evaluate_def)
  qed
  show "1 \<le> t \<and> nat \<lfloor>t\<rfloor> < length (m_points s) - 1 \<longrightarrow>
           CubicSpline_evaluate s t False =
             Some (pt_a (m_points s ! nat \<lfloor>t\<rfloor>)
                   + pt_b (m_points s ! nat \<lfloor>t\<rfloor>) * (t - real_of_int \<lfloor>t\<rfloor>)
                   + pt_c (m_points s ! nat \<lfloor>t\<rfloor>) * ((t - real_of_int \<lfloor>t\<rfloor>) * (t - real_of_int \<lfloor>t\<rfloor>))
                   + pt_d (m_points s ! nat \<lfloor>t\<rfloor>)
                     * ((t - real_of_int \<lfloor>t\<rfloor>) * (t - real_of_int \<lfloor>t\<rfloor>) * (t - real_of_int \<lfloor>t\<rfloor>)))"
  proof
    assume a: "1 \<le> t \<and> nat \<lfloor>t\<rfloor> < length (m_points s) - 1"
    note c = static_cast_int_positive[of t]
    have n: "\<not> \<lfloor>t\<rfloor> \<le> 0" using c(2) a by simp
    have m: "min (nat \<lfloor>t\<rfloor>) (length (m_points s) - 1) = nat \<lfloor>t\<rfloor>"
      and b: "nat \<lfloor>t\<rfloor> < length (m_points s)"
      using a by linarith+
    show "CubicSpline_evaluate s t False =
             Some (pt_a (m_points s ! nat \<lfloor>t\<rfloor>)
                   + pt_b (m_points s ! nat \<lfloor>t\<rfloor>) * (t - real_of_int \<lfloor>t\<rfloor>)
                   + pt_c (m_points s ! nat \<lfloor>t\<rfloor>) * ((t - real_of_int \<lfloor>t\<rfloor>) * (t - real_of_int \<lfloor>t\<rfloor>))
                   + pt_d (m_points s ! nat \<lfloor>t\<rfloor>)
                     * ((t - real_of_int \<lfloor>t\<rfloor>) * (t - real_of_int \<lfloor>t\<rfloor>) * (t - real_of_int \<lfloor>t\<rfloor>)))"
      using assms(1,3) a c(1,4) n m b sub
      by (simp add: CubicSpline_evaluate_def CubicSpline_evaluate_tail_def Let_def)
  qed
qed

text \<open>
  C2. The claim is that without loop \<open>evaluate\<close> returns the cubic of segment \<open>0\<close> for
  \<open>0 < t < 1\<close>. The code tests the integer part of \<open>t\<close>, which is \<open>0\<close> there, and returns
  the first value. The spline of the two values \<open>0, 1\<close> is solved to the line of slope
  \<open>1\<close>; at \<open>t = 1/2\<close> the code returns \<open>0\<close>, and the cubic of segment \<open>0\<close>
  (\<open>CubicSpline_evaluate_tail\<close> with the integer part \<open>0\<close>) is \<open>1/2\<close>.
\<close>

theorem evaluate_clamps_before_one:
  "solve_straight initial_cache
     \<lparr>m_points = [\<lparr>pt_a = 0, pt_b = 0, pt_c = 0, pt_d = 0\<rparr>,
                  \<lparr>pt_a = 1, pt_b = 0, pt_c = 0, pt_d = 0\<rparr>], m_spatial_extent = 0\<rparr> =
     Some (initial_cache,
       \<lparr>m_points = [\<lparr>pt_a = 0, pt_b = 1, pt_c = 0, pt_d = 0\<rparr>,
                    \<lparr>pt_a = 1, pt_b = - 1, pt_c = 0, pt_d = 0\<rparr>], m_spatial_extent = 0\<rparr>)
   \<and> CubicSpline_evaluate
       \<lparr>m_points = [\<lparr>pt_a = 0, pt_b = 1, pt_c = 0, pt_d = 0\<rparr>,
                    \<lparr>pt_a = 1, pt_b = - 1, pt_c = 0, pt_d = 0\<rparr>], m_spatial_extent = 0\<rparr>
       (1 / 2) False = Some 0
   \<and> CubicSpline_evaluate_tail
       \<lparr>m_points = [\<lparr>pt_a = 0, pt_b = 1, pt_c = 0, pt_d = 0\<rparr>,
                    \<lparr>pt_a = 1, pt_b = - 1, pt_c = 0, pt_d = 0\<rparr>], m_spatial_extent = 0\<rparr>
       (1 / 2) 0 = Some (1 / 2)"
  by (simp add: spline_eval evaluate_eval cong: option_bind_weak_cong)

subsection \<open>The minimum size\<close>

lemma check_minimum_size_loop_closed:
  "i \<le> length pts \<Longrightarrow>
   check_minimum_size_loop i a ident pts =
     Some (ident \<and> list_all (\<lambda>p. pt_a p = a) (drop i pts),
           take i pts @ map zero_coefficients (drop i pts))"
proof (induction "length pts - i" arbitrary: i ident pts)
  case 0
  then show ?case
    by (subst check_minimum_size_loop.simps) simp
next
  case (Suc k)
  then have lt: "i < length pts" by simp
  let ?pts' = "pts[i := zero_coefficients (pts ! i)]"
  have d: "drop i pts = pts ! i # drop (i + 1) pts"
    using lt by (simp add: Cons_nth_drop_Suc)
  have "check_minimum_size_loop i a ident pts =
        check_minimum_size_loop (i + 1) a (if pt_a (pts ! i) \<noteq> a then False else ident) ?pts'"
    using lt by (subst check_minimum_size_loop.simps) (simp add: zero_coefficients_def Let_def)
  also have "\<dots> = Some ((if pt_a (pts ! i) \<noteq> a then False else ident)
                          \<and> list_all (\<lambda>p. pt_a p = a) (drop (i + 1) ?pts'),
                        take (i + 1) ?pts' @ map zero_coefficients (drop (i + 1) ?pts'))"
    using Suc.hyps(2) lt by (intro Suc.hyps(1)) simp_all
  also have "drop (i + 1) ?pts' = drop (i + 1) pts"
    by simp
  also have "take (i + 1) ?pts' = take i pts @ [zero_coefficients (pts ! i)]"
    using lt by (simp add: take_Suc_conv_app_nth)
  finally show ?case
    by (auto simp: d)
qed

lemma check_minimum_size_three_or_more:
  assumes "3 \<le> length (m_points s)"
  shows "check_minimum_size s =
           Some (list_all (\<lambda>p. pt_a p = pt_a (m_points s ! 0)) (tl (m_points s)),
                 s\<lparr>m_points := m_points s ! 0 # map zero_coefficients (tl (m_points s))\<rparr>)"
proof -
  have l: "0 < length (m_points s)" "1 \<le> length (m_points s)"
    "\<not> length (m_points s) < 2" "length (m_points s) \<noteq> 2"
    using assms by auto
  have t: "take 1 (m_points s) = [m_points s ! 0]"
    using l(1) by (cases "m_points s") simp_all
  show ?thesis
    using l t by (simp add: check_minimum_size_def Let_def check_minimum_size_loop_closed drop_Suc)
qed

lemma check_minimum_size_one_point:
  "check_minimum_size \<lparr>m_points = [p], m_spatial_extent = ext\<rparr> =
     Some (True, \<lparr>m_points = [zero_coefficients p], m_spatial_extent = ext\<rparr>)"
  by (simp add: check_minimum_size_def zero_coefficients_def)

lemma vec_modify_length: "vec_modify v i f = Some v' \<Longrightarrow> length v' = length v"
  by (auto simp: vec_modify_def split: if_splits)

lemma vec_set_length: "vec_set v i x = Some v' \<Longrightarrow> length v' = length v"
  by (auto simp: vec_set_def split: if_splits)

lemma check_minimum_size_size:
  assumes "check_minimum_size s = Some (r, s')"
  shows "CubicSpline_size s' = CubicSpline_size s"
proof -
  consider "length (m_points s) < 2" | "length (m_points s) = 2" | "3 \<le> length (m_points s)"
    by linarith
  then show ?thesis
  proof cases
    case 1
    with assms show ?thesis
      by (auto simp: check_minimum_size_def CubicSpline_size_def Let_def
          split: bind_splits dest: vec_modify_length)
  next
    case 2
    with assms show ?thesis
      by (auto simp: check_minimum_size_def CubicSpline_size_def Let_def
          split: bind_splits dest!: vec_modify_length)
  next
    case 3
    then have "m_points s \<noteq> []" by auto
    with assms 3 show ?thesis
      by (auto simp: check_minimum_size_three_or_more CubicSpline_size_def)
  qed
qed

lemma set_results_points_length:
  "set_results_points i last_n results ext pts = Some pts' \<Longrightarrow> length pts' = length pts"
proof (induction i last_n results ext pts rule: set_results_points.induct)
  case (1 i last_n results ext pts)
  show ?case
  proof (cases "i < last_n")
    case False
    with "1.prems" show ?thesis
      by (subst (asm) set_results_points.simps) simp
  next
    case True
    from "1.prems" True obtain pn pi ri rn p1 p2 p3 p4 p5 p6 where
      a: "vec_at pts ((i + 1) mod last_n) = Some pn" "vec_at pts i = Some pi"
         "vec_at results i = Some ri" "vec_at results ((i + 1) mod last_n) = Some rn"
         "vec_modify pts i (\<lambda>p. p\<lparr>pt_b := ri\<rparr>) = Some p1"
         "vec_modify p1 i
            (\<lambda>p. p\<lparr>pt_c := 3 * loop_space_difference (pt_a pn) (pt_a pi) ext - 2 * ri - rn\<rparr>) = Some p2"
         "vec_modify p2 i
            (\<lambda>p. p\<lparr>pt_d := 2 * - loop_space_difference (pt_a pn) (pt_a pi) ext + ri + rn\<rparr>) = Some p3"
         "vec_modify p3 i (\<lambda>p. p\<lparr>pt_b := UNNAN (pt_b p)\<rparr>) = Some p4"
         "vec_modify p4 i (\<lambda>p. p\<lparr>pt_c := UNNAN (pt_c p)\<rparr>) = Some p5"
         "vec_modify p5 i (\<lambda>p. p\<lparr>pt_d := UNNAN (pt_d p)\<rparr>) = Some p6"
         "set_results_points (i + 1) last_n results ext p6 = Some pts'"
      by (subst (asm) set_results_points.simps) (auto simp: Let_def split: bind_splits)
    have "length pts' = length p6"
      using "1.IH"[OF True refl a(1,2) refl a(3,4,5,6,7,8,9,10,11)] .
    also have "\<dots> = length pts"
      using a(5,6,7,8,9,10) by (auto dest!: vec_modify_length)
    finally show ?thesis .
  qed
qed

lemma set_results_size:
  "set_results last_n diagonals results s = Some s' \<Longrightarrow> CubicSpline_size s' = CubicSpline_size s"
  by (auto simp: set_results_def CubicSpline_size_def split: bind_splits
      dest: set_results_points_length)

lemma solve_straight_size:
  assumes "solve_straight sc s = Some (sc', s')"
  shows "CubicSpline_size s' = CubicSpline_size s"
proof -
  from assms obtain r s1 where c: "check_minimum_size s = Some (r, s1)"
    by (auto simp: solve_straight_def split: bind_splits)
  show ?thesis
  proof (cases r)
    case True
    with assms c have "s' = s1" by (simp add: solve_straight_def)
    then show ?thesis using check_minimum_size_size[OF c] by simp
  next
    case False
    with assms c obtain d res where "set_results (length (m_points s1)) d res s1 = Some s'"
      by (auto simp: solve_straight_def Let_def split: bind_splits)
    then show ?thesis
      using set_results_size check_minimum_size_size[OF c] by simp
  qed
qed

lemma solve_looped_size:
  assumes "solve_looped sc s = Some (sc', s')"
  shows "CubicSpline_size s' = CubicSpline_size s"
proof -
  from assms obtain r s1 where c: "check_minimum_size s = Some (r, s1)"
    by (auto simp: solve_looped_def split: bind_splits)
  show ?thesis
  proof (cases r)
    case True
    with assms c have "s' = s1" by (simp add: solve_looped_def)
    then show ?thesis using check_minimum_size_size[OF c] by simp
  next
    case False
    with assms c obtain d res where "set_results (length (m_points s1)) d res s1 = Some s'"
      by (auto simp: solve_looped_def Let_def split: bind_splits prod.splits)
    then show ?thesis
      using set_results_size check_minimum_size_size[OF c] by simp
  qed
qed

lemma solve_each_sizes:
  assumes "\<And>sc s sc' s'. solve_one sc s = Some (sc', s') \<Longrightarrow> CubicSpline_size s' = CubicSpline_size s"
  shows "solve_each solve_one sc splines = Some (sc', splines') \<Longrightarrow>
         map CubicSpline_size splines' = map CubicSpline_size splines"
proof (induction splines arbitrary: sc sc' splines')
  case Nil
  then show ?case by simp
next
  case (Cons s splines)
  from Cons.prems obtain sc1 s1 sc2 rest where
    a: "solve_one sc s = Some (sc1, s1)" "solve_each solve_one sc1 splines = Some (sc2, rest)"
       "splines' = s1 # rest"
    by (auto split: bind_splits)
  show ?case
    using assms[OF a(1)] Cons.IH[OF a(2)] a(3) by simp
qed

text \<open>
  C1. The claim is that with three points or more of one value all coefficients of every
  point become \<open>0\<close>. The loop of \<open>check_minimum_size\<close> starts at the second point, so the
  first point keeps the coefficients it had. After \<open>hill_spline\<close> was solved and its three
  values were set to \<open>5\<close>, both solvers leave \<open>b = 15\<close> in the first point, and the curve
  is not flat: with loop the value at \<open>1/2\<close> is not \<open>5\<close>, and the derivative there is not
  \<open>0\<close>.
\<close>

theorem identical_points_keep_first_coefficients:
  "solve_straight initial_cache hill_spline = Some (cache_after_hill, hill_solved)
   \<and> do { s \<leftarrow> CubicSpline_set_point 0 5 hill_solved;
           s \<leftarrow> CubicSpline_set_point 1 5 s;
           s \<leftarrow> CubicSpline_set_point 2 5 s;
           check_minimum_size s } = Some (True, flat_after_hill)
   \<and> check_minimum_size flat_after_hill = Some (True, flat_after_hill)
   \<and> solve_straight cache_after_hill flat_after_hill = Some (cache_after_hill, flat_after_hill)
   \<and> solve_looped cache_after_hill flat_after_hill = Some (cache_after_hill, flat_after_hill)
   \<and> pt_b (m_points flat_after_hill ! 0) = 15
   \<and> CubicSpline_evaluate flat_after_hill (1 / 2) True = Some (4985 / 392)
   \<and> CubicSpline_evaluate_derivative flat_after_hill (1 / 2) False = Some (2535 / 196)"
  by (simp add: example_defs spline_eval cache_eval evaluate_eval cong: option_bind_weak_cong)

text \<open>
  C3. The claim is that a solve of a spline of no points touches no index out of range. The
  branch for fewer than two points writes the coefficients of point \<open>0\<close>, which an empty
  vector does not have: the run has no defined result. A bundle reaches it with
  \<open>resize(0)\<close> and \<open>solve\<close>. \<open>evaluate\<close> tests for the empty vector first and returns \<open>0\<close>.
\<close>

theorem solve_of_empty_spline_reads_out_of_range:
  "check_minimum_size \<lparr>m_points = [], m_spatial_extent = ext\<rparr> = None
   \<and> solve_straight sc \<lparr>m_points = [], m_spatial_extent = ext\<rparr> = None
   \<and> solve_looped sc \<lparr>m_points = [], m_spatial_extent = ext\<rparr> = None
   \<and> m_splines (CubicSplineN_resize 0 one_spline_bundle) = [\<lparr>m_points = [], m_spatial_extent = 0\<rparr>]
   \<and> CubicSplineN_solve sc (CubicSplineN_resize 0 one_spline_bundle) = None
   \<and> CubicSpline_evaluate \<lparr>m_points = [], m_spatial_extent = ext\<rparr> t lp = Some 0"
  by (simp add: example_defs spline_eval bundle_eval CubicSpline_evaluate_def
      cong: option_bind_weak_cong)

subsection \<open>A solve of a spline that has a point returns\<close>

text \<open>
  With one point or more every index that a solve reads or writes is in range: both solvers
  return, in every state the cache can reach, and so does the solve of a bundle none of
  whose splines is empty.
\<close>

lemma CubicSpline_prep_inner_loop_defined:
  "length (m_points s) = n \<Longrightarrow> length results = n \<Longrightarrow> 1 \<le> n \<Longrightarrow> 1 \<le> i \<Longrightarrow>
   \<exists>r. CubicSpline_prep_inner_loop i n s results = Some r \<and> length r = n"
proof (induction "n - 1 - i" arbitrary: i results)
  case 0
  then have "\<not> i < size_t_sub n 1" by (auto simp: size_t_sub_def)
  then show ?case
    using 0 by (subst CubicSpline_prep_inner_loop.simps) simp
next
  case (Suc k)
  then have b: "i < size_t_sub n 1" "i + 1 < length (m_points s)" "size_t_sub i 1 < length (m_points s)"
    "i < length results"
    by (auto simp: size_t_sub_def)
  let ?r = "results[i := 3 * loop_space_difference (pt_a (m_points s ! (i + 1)))
                          (pt_a (m_points s ! size_t_sub i 1)) (m_spatial_extent s)]"
  have "\<exists>r. CubicSpline_prep_inner_loop (i + 1) n s ?r = Some r \<and> length r = n"
    using Suc.hyps(2) Suc.prems by (intro Suc.hyps(1)) auto
  then show ?case
    using b by (subst CubicSpline_prep_inner_loop.simps) simp
qed

lemma solve_straight_loop_defined:
  "length diagonals = n \<Longrightarrow> length results = n \<Longrightarrow> 1 \<le> n \<Longrightarrow> 1 \<le> i \<Longrightarrow>
   \<exists>r. solve_straight_loop i n diagonals results = Some r \<and> length r = n"
proof (induction "n - 1 - i" arbitrary: i results)
  case 0
  then have "\<not> i < size_t_sub n 1" by (auto simp: size_t_sub_def)
  then show ?case
    using 0 by (subst solve_straight_loop.simps) simp
next
  case (Suc k)
  then have b: "i < size_t_sub n 1" "i < length results" "size_t_sub i 1 < length results"
    "i < length diagonals"
    by (auto simp: size_t_sub_def)
  let ?r = "results[i := results ! i - results ! size_t_sub i 1 * (1 / diagonals ! i)]"
  have "\<exists>r. solve_straight_loop (i + 1) n diagonals ?r = Some r \<and> length r = n"
    using Suc.hyps(2) Suc.prems by (intro Suc.hyps(1)) auto
  then show ?case
    using b by (subst solve_straight_loop.simps) simp
qed

lemma solve_looped_loop_defined:
  "length diagonals = n \<Longrightarrow> length results = n \<Longrightarrow> 2 \<le> n \<Longrightarrow>
   \<exists>ce re r. solve_looped_loop i (n - 2) (n - 1) cedge redge diagonals results = Some (ce, re, r)
      \<and> length r = n"
proof (induction "n - 2 - i" arbitrary: i cedge redge results)
  case 0
  then have "\<not> i < n - 2" by auto
  then show ?case
    using 0 by (subst solve_looped_loop.simps) simp
next
  case (Suc k)
  then have b: "i < n - 2" "i < length results" "i + 1 < length results" "n - 1 < length results"
    "i < length diagonals"
    by auto
  let ?r1 = "results[i + 1 := results ! (i + 1) - results ! i * (1 / diagonals ! i)]"
  let ?r2 = "?r1[n - 1 := ?r1 ! (n - 1) - ?r1 ! i * (redge / diagonals ! i)]"
  have "\<exists>ce re r. solve_looped_loop (i + 1) (n - 2) (n - 1) (0 - cedge * (1 / diagonals ! i))
          (0 - redge * (1 / diagonals ! i)) diagonals ?r2 = Some (ce, re, r) \<and> length r = n"
    using Suc.hyps(2) Suc.prems by (intro Suc.hyps(1)) auto
  then show ?case
    using b by (subst solve_looped_loop.simps) (simp add: Let_def)
qed

lemma set_results_divide_defined:
  "length diagonals = n \<Longrightarrow> length results = n \<Longrightarrow>
   \<exists>r. set_results_divide i n diagonals results = Some r \<and> length r = n"
proof (induction "n - i" arbitrary: i results)
  case 0
  then have "\<not> i < n" by auto
  then show ?case
    using 0 by (subst set_results_divide.simps) simp
next
  case (Suc k)
  then have b: "i < n" "i < length results" "i < length diagonals"
    by auto
  have "\<exists>r. set_results_divide (i + 1) n diagonals (results[i := results ! i / diagonals ! i]) = Some r
          \<and> length r = n"
    using Suc.hyps(2) Suc.prems by (intro Suc.hyps(1)) auto
  then show ?case
    using b by (subst set_results_divide.simps) simp
qed

lemma set_results_points_defined:
  "length pts = n \<Longrightarrow> length results = n \<Longrightarrow>
   \<exists>p. set_results_points i n results ext pts = Some p"
proof (induction "n - i" arbitrary: i pts)
  case 0
  then have "\<not> i < n" by auto
  then show ?case
    by (subst set_results_points.simps) simp
next
  case (Suc k)
  then have b: "i < n" "i < length pts" "i < length results"
    "(i + 1) mod n < length pts" "(i + 1) mod n < length results"
    by auto
  have "\<exists>p. set_results_points (i + 1) n results ext pts' = Some p" if "length pts' = n" for pts'
    using Suc.hyps(2) Suc.prems that by (intro Suc.hyps(1)) auto
  then have ih: "\<forall>pts'. length pts' = n \<longrightarrow> (\<exists>p. set_results_points (i + 1) n results ext pts' = Some p)"
    by blast
  show ?case
    using b Suc.prems ih by (subst set_results_points.simps) (simp add: Let_def)
qed

lemma set_results_defined:
  "length (m_points s) = n \<Longrightarrow> length diagonals = n \<Longrightarrow> length results = n \<Longrightarrow>
   \<exists>s'. set_results n diagonals results s = Some s'"
proof -
  assume a: "length (m_points s) = n" "length diagonals = n" "length results = n"
  obtain r where r: "set_results_divide 0 n diagonals results = Some r" "length r = n"
    using set_results_divide_defined[OF a(2,3)] by blast
  obtain p where p: "set_results_points 0 n r (m_spatial_extent s) (m_points s) = Some p"
    using set_results_points_defined[OF a(1) r(2)] by blast
  show ?thesis
    by (simp add: set_results_def r p)
qed

lemma solve_straight_rhs_defined:
  assumes "length (m_points s) = n" and "length results = n" and "2 \<le> n"
  shows "\<exists>r. solve_straight_rhs s results = Some r \<and> length r = n"
proof -
  let ?r0 = "results[0 := 3 * (pt_a (m_points s ! 1) - pt_a (m_points s ! 0))]"
  have b: "0 < length (m_points s)" "1 < length (m_points s)" "0 < length results"
    "size_t_sub n 1 < length (m_points s)" "size_t_sub n 2 < length (m_points s)"
    using assms by (auto simp: size_t_sub_def)
  obtain r1 where r1: "CubicSpline_prep_inner_loop 1 n s ?r0 = Some r1" "length r1 = n"
    using CubicSpline_prep_inner_loop_defined[of s n ?r0 1] assms by auto
  have "size_t_sub n 1 < length r1"
    using r1(2) assms(3) by (auto simp: size_t_sub_def)
  then show ?thesis
    using b r1 assms(1)
    by (simp add: solve_straight_rhs_def Let_def CubicSpline_prep_inner_def)
qed

lemma solve_straight_eliminate_defined:
  assumes "length diagonals = n" and "length results = n" and "2 \<le> n"
  shows "\<exists>r. solve_straight_eliminate n diagonals results = Some r \<and> length r = n"
proof -
  have b: "0 < length results" "1 < length results"
    using assms by auto
  have "\<exists>r. solve_straight_loop 1 n diagonals (results[1 := results ! 1 - results ! 0 * (1 / 2)]) = Some r
          \<and> length r = n"
    using assms by (intro solve_straight_loop_defined) auto
  then show ?thesis
    using b by (simp add: solve_straight_eliminate_def)
qed

lemma check_minimum_size_defined:
  assumes "m_points s \<noteq> []"
  shows "\<exists>r s'. check_minimum_size s = Some (r, s')"
proof -
  consider "length (m_points s) = 1" | "length (m_points s) = 2" | "3 \<le> length (m_points s)"
  proof -
    have "0 < length (m_points s)" using assms by simp
    then have "length (m_points s) = 1 \<or> length (m_points s) = 2 \<or> 3 \<le> length (m_points s)"
      by linarith
    then show ?thesis using that by blast
  qed
  then show ?thesis
  proof cases
    case 1
    then show ?thesis by (auto simp: check_minimum_size_def Let_def)
  next
    case 2
    then show ?thesis by (auto simp: check_minimum_size_def Let_def)
  next
    case 3
    then show ?thesis by (simp add: check_minimum_size_three_or_more)
  qed
qed

lemma solve_diagonals_straight_defined:
  assumes "cache_reachable sc" and "2 \<le> length ds"
  shows "\<exists>sc' d. solve_diagonals_straight sc ds = Some (sc', d) \<and> length d = length ds"
proof -
  obtain d where d: "solve_diagonals_straight_miss ds = Some d"
    using straight_miss_defined[OF assms(2)] by blast
  have "map_option snd (solve_diagonals_straight sc ds) = Some d"
    using solve_diagonals_straight_ok(1)[OF cache_reachable_ok[OF assms(1)], of ds] d by simp
  then obtain sc' where "solve_diagonals_straight sc ds = Some (sc', d)"
    by auto
  then show ?thesis
    using straight_miss_length[OF d] by blast
qed

lemma solve_diagonals_looped_defined:
  assumes "cache_reachable sc" and "2 \<le> length ds"
  shows "\<exists>sc' d. solve_diagonals_looped sc ds = Some (sc', d) \<and> length d = length ds"
proof -
  have d: "solve_diagonals_looped_miss ds = Some (periodic_elimination (length ds) (replicate (length ds) 4))"
    using looped_miss_spec[OF assms(2)] .
  have "map_option snd (solve_diagonals_looped sc ds) =
        Some (periodic_elimination (length ds) (replicate (length ds) 4))"
    using solve_diagonals_looped_ok(1)[OF cache_reachable_ok[OF assms(1)], of ds] d by simp
  then obtain sc' where "solve_diagonals_looped sc ds =
      Some (sc', periodic_elimination (length ds) (replicate (length ds) 4))"
    by auto
  then show ?thesis
    using looped_miss_length[OF d] by blast
qed

lemma solve_straight_defined:
  assumes "m_points s \<noteq> []" and "cache_reachable sc"
  shows "\<exists>sc' s'. solve_straight sc s = Some (sc', s') \<and> cache_reachable sc'"
proof -
  obtain r s1 where c: "check_minimum_size s = Some (r, s1)"
    using check_minimum_size_defined[OF assms(1)] by blast
  show ?thesis
  proof (cases r)
    case True
    then show ?thesis using c assms(2) by (simp add: solve_straight_def)
  next
    case False
    let ?n = "length (m_points s1)"
    have n3: "3 \<le> length (m_points s)"
    proof (rule ccontr)
      assume "\<not> 3 \<le> length (m_points s)"
      then have "length (m_points s) < 2 \<or> length (m_points s) = 2" by linarith
      then show False
        using c False by (auto simp: check_minimum_size_def Let_def split: bind_splits)
    qed
    have n: "?n = length (m_points s)"
      using check_minimum_size_size[OF c] by (simp add: CubicSpline_size_def)
    then have n2: "2 \<le> ?n" using n3 by simp
    obtain sc1 d where d: "solve_diagonals_straight sc (replicate ?n 0) = Some (sc1, d)" "length d = ?n"
      using solve_diagonals_straight_defined[OF assms(2), of "replicate ?n 0"] n2 by auto
    obtain r1 where r1: "solve_straight_rhs s1 (replicate ?n 0) = Some r1" "length r1 = ?n"
      using solve_straight_rhs_defined[of s1 ?n "replicate ?n 0"] n2 by auto
    obtain r2 where r2: "solve_straight_eliminate ?n d r1 = Some r2" "length r2 = ?n"
      using solve_straight_eliminate_defined[OF d(2) r1(2) n2] by blast
    obtain s2 where s2: "set_results ?n d r2 s1 = Some s2"
      using set_results_defined[OF refl d(2) r2(2)] by blast
    have "solve_straight sc s = Some (sc1, s2)"
      using c False d(1) r1(1) r2(1) s2 by (simp add: solve_straight_def Let_def)
    moreover have "cache_reachable sc1"
      using assms(2) d(1) by (rule cache_reachable.straight)
    ultimately show ?thesis by blast
  qed
qed

lemma solve_looped_defined:
  assumes "m_points s \<noteq> []" and "cache_reachable sc"
  shows "\<exists>sc' s'. solve_looped sc s = Some (sc', s') \<and> cache_reachable sc'"
proof -
  obtain r s1 where c: "check_minimum_size s = Some (r, s1)"
    using check_minimum_size_defined[OF assms(1)] by blast
  show ?thesis
  proof (cases r)
    case True
    then show ?thesis using c assms(2) by (simp add: solve_looped_def)
  next
    case False
    let ?n = "length (m_points s1)"
    let ?ext = "m_spatial_extent s1"
    have n3: "3 \<le> length (m_points s)"
    proof (rule ccontr)
      assume "\<not> 3 \<le> length (m_points s)"
      then have "length (m_points s) < 2 \<or> length (m_points s) = 2" by linarith
      then show False
        using c False by (auto simp: check_minimum_size_def Let_def split: bind_splits)
    qed
    have n: "?n = length (m_points s)"
      using check_minimum_size_size[OF c] by (simp add: CubicSpline_size_def)
    then have n2: "2 \<le> ?n" and n1: "1 \<le> ?n" using n3 by simp_all
    have sub: "size_t_sub ?n 1 = ?n - 1" "size_t_sub (?n - 1) 1 = ?n - 2" "size_t_sub ?n 2 = ?n - 2"
      using n2 by (auto simp: size_t_sub_def)
    obtain sc1 d where d: "solve_diagonals_looped sc (replicate ?n 0) = Some (sc1, d)" "length d = ?n"
      using solve_diagonals_looped_defined[OF assms(2), of "replicate ?n 0"] n2 by auto
    let ?r0 = "(replicate ?n 0)[0 := 3 * loop_space_difference (pt_a (m_points s1 ! 1))
                 (pt_a (m_points s1 ! (?n - 1))) ?ext]"
    obtain r1 where r1: "CubicSpline_prep_inner_loop 1 ?n s1 ?r0 = Some r1" "length r1 = ?n"
      using CubicSpline_prep_inner_loop_defined[of s1 ?n ?r0 1] n1 by auto
    let ?r2 = "r1[?n - 1 := 3 * loop_space_difference (pt_a (m_points s1 ! 0))
                 (pt_a (m_points s1 ! (?n - 2))) ?ext]"
    obtain ce re r3 where r3: "solve_looped_loop 0 (?n - 2) (?n - 1) 1 1 d ?r2 = Some (ce, re, r3)"
      "length r3 = ?n"
      using solve_looped_loop_defined[of d ?n ?r2 0 1 1] d(2) r1(2) n2 by auto
    let ?r4 = "r3[?n - 1 := r3 ! (?n - 1) - r3 ! (?n - 2) * ((1 - re) / d ! (?n - 2))]"
    obtain s2 where s2: "set_results ?n d ?r4 s1 = Some s2"
      using set_results_defined[of s1 ?n d ?r4] d(2) r3(2) by auto
    have b: "1 < ?n" "?n - 1 < ?n" "0 < ?n" "?n - 2 < ?n"
      using n2 by auto
    have "solve_looped sc s = Some (sc1, s2)"
      using c False d r1 r3 s2 b sub
      by (simp add: solve_looped_def Let_def CubicSpline_prep_inner_def)
    moreover have "cache_reachable sc1"
      using assms(2) d(1) by (rule cache_reachable.looped)
    ultimately show ?thesis by blast
  qed
qed

lemma solve_each_defined:
  assumes "\<And>sc s. m_points s \<noteq> [] \<Longrightarrow> cache_reachable sc \<Longrightarrow>
             \<exists>sc' s'. solve_one sc s = Some (sc', s') \<and> cache_reachable sc'"
  shows "\<forall>s\<in>set splines. m_points s \<noteq> [] \<Longrightarrow> cache_reachable sc \<Longrightarrow>
         \<exists>sc' splines'. solve_each solve_one sc splines = Some (sc', splines') \<and> cache_reachable sc'"
proof (induction splines arbitrary: sc)
  case Nil
  then show ?case by simp
next
  case (Cons s splines)
  obtain sc1 s1 where a: "solve_one sc s = Some (sc1, s1)" "cache_reachable sc1"
    using assms[of s sc] Cons.prems by auto
  obtain sc2 rest where b: "solve_each solve_one sc1 splines = Some (sc2, rest)" "cache_reachable sc2"
    using Cons.IH[OF _ a(2)] Cons.prems(1) by auto
  show ?case
    using a b by simp
qed

lemma CubicSplineN_solve_defined:
  assumes "\<forall>s\<in>set (m_splines n). m_points s \<noteq> []" and "cache_reachable sc"
  shows "\<exists>sc' n'. CubicSplineN_solve sc n = Some (sc', n') \<and> cache_reachable sc'"
proof (cases "m_dirty n")
  case False
  then show ?thesis using assms(2) by (simp add: CubicSplineN_solve_def)
next
  case True
  show ?thesis
  proof (cases "loop n")
    case l: True
    obtain sc' x where "solve_each solve_looped sc (m_splines n) = Some (sc', x)" "cache_reachable sc'"
      using solve_each_defined[of solve_looped "m_splines n" sc, OF solve_looped_defined] assms
      by blast
    then show ?thesis using True l by (simp add: CubicSplineN_solve_def)
  next
    case l: False
    obtain sc' x where "solve_each solve_straight sc (m_splines n) = Some (sc', x)" "cache_reachable sc'"
      using solve_each_defined[of solve_straight "m_splines n" sc, OF solve_straight_defined] assms
      by blast
    then show ?thesis using True l by (simp add: CubicSplineN_solve_def)
  qed
qed

subsection \<open>The elimination of the open mode\<close>

text \<open>
  C4. The claim is that the elimination on the right-hand side mirrors the diagonal's: each
  step \<open>i\<close> subtracts \<open>rhs[i] / d[i]\<close> from \<open>rhs[i+1]\<close>. The code subtracts
  \<open>rhs[i-1] / d[i]\<close> from \<open>rhs[i]\<close>. For \<open>hill_spline\<close> the right-hand side \<open>30, 0, -30\<close>
  becomes \<open>30, -165/7, -30\<close> in the code and \<open>30, -15, -180/7\<close> in the mirrored
  elimination.
\<close>

theorem straight_rhs_elimination_differs_from_mirror:
  "solve_diagonals_straight initial_cache [0, 0, 0] = Some (cache_after_hill, [2, 7 / 2, 12 / 7])
   \<and> solve_straight_rhs hill_spline [0, 0, 0] = Some [30, 0, - 30]
   \<and> solve_straight_eliminate 3 [2, 7 / 2, 12 / 7] [30, 0, - 30] = Some [30, - (165 / 7), - 30]
   \<and> mirrored_rhs_elimination 3 [2, 7 / 2, 12 / 7] [30, 0, - 30] = [30, - 15, - (180 / 7)]"
  by (simp add: example_defs spline_eval cache_eval mirrored_rhs_elimination_def
      mirrored_rhs_step_def eval_nat_numeral cong: option_bind_weak_cong)

subsection \<open>The sizes of the splines of a bundle\<close>

lemma CubicSpline_set_point_size:
  "CubicSpline_set_point i v s = Some s' \<Longrightarrow> CubicSpline_size s' = CubicSpline_size s"
  by (auto simp: CubicSpline_set_point_def CubicSpline_size_def
      split: if_splits bind_splits dest: vec_modify_length)

lemma CubicSpline_set_coefficients_size:
  "CubicSpline_set_coefficients i b c d s = Some s' \<Longrightarrow> CubicSpline_size s' = CubicSpline_size s"
  by (auto simp: CubicSpline_set_coefficients_def CubicSpline_size_def
      split: if_splits bind_splits dest: vec_modify_length)

lemma map_size_update:
  "k < length splines \<Longrightarrow> CubicSpline_size s' = CubicSpline_size (splines ! k) \<Longrightarrow>
   map CubicSpline_size (splines[k := s']) = map CubicSpline_size splines"
  by (simp add: map_update list_update_same_conv)

lemma set_point_loop_sizes:
  "CubicSplineN_set_point_loop k i v splines = Some splines' \<Longrightarrow>
   map CubicSpline_size splines' = map CubicSpline_size splines"
proof (induction k i v splines rule: CubicSplineN_set_point_loop.induct)
  case (1 k i v splines)
  show ?case
  proof (cases "k < length splines")
    case False
    with "1.prems" show ?thesis
      by (subst (asm) CubicSplineN_set_point_loop.simps) simp
  next
    case True
    from "1.prems" True obtain vk s1 where
      a: "vec_at splines k = Some (splines ! k)" "vec_at v k = Some vk"
         "CubicSpline_set_point i vk (splines ! k) = Some s1"
         "vec_set splines k s1 = Some (splines[k := s1])"
         "CubicSplineN_set_point_loop (k + 1) i v (splines[k := s1]) = Some splines'"
      by (subst (asm) CubicSplineN_set_point_loop.simps) (auto split: bind_splits)
    have "map CubicSpline_size splines' = map CubicSpline_size (splines[k := s1])"
      using "1.IH"[OF True a] .
    also have "\<dots> = map CubicSpline_size splines"
      using True CubicSpline_set_point_size[OF a(3)] by (rule map_size_update)
    finally show ?thesis .
  qed
qed

lemma set_coefficients_loop_sizes:
  "CubicSplineN_set_coefficients_loop k i b c d splines = Some splines' \<Longrightarrow>
   map CubicSpline_size splines' = map CubicSpline_size splines"
proof (induction k i b c d splines rule: CubicSplineN_set_coefficients_loop.induct)
  case (1 k i b c d splines)
  show ?case
  proof (cases "k < length splines")
    case False
    with "1.prems" show ?thesis
      by (subst (asm) CubicSplineN_set_coefficients_loop.simps) simp
  next
    case True
    from "1.prems" True obtain bk ck dk s1 where
      a: "vec_at splines k = Some (splines ! k)" "vec_at b k = Some bk" "vec_at c k = Some ck"
         "vec_at d k = Some dk"
         "CubicSpline_set_coefficients i bk ck dk (splines ! k) = Some s1"
         "vec_set splines k s1 = Some (splines[k := s1])"
         "CubicSplineN_set_coefficients_loop (k + 1) i b c d (splines[k := s1]) = Some splines'"
      by (subst (asm) CubicSplineN_set_coefficients_loop.simps) (auto split: bind_splits)
    have "map CubicSpline_size splines' = map CubicSpline_size (splines[k := s1])"
      using "1.IH"[OF True a] .
    also have "\<dots> = map CubicSpline_size splines"
      using True CubicSpline_set_coefficients_size[OF a(5)] by (rule map_size_update)
    finally show ?thesis .
  qed
qed

lemma bundle_operations_and_sizes:
  "CubicSplineN_set_point i v n = Some n' \<longrightarrow> spline_sizes n' = spline_sizes n"
  "CubicSplineN_set_coefficients i b c d n = Some n' \<longrightarrow> spline_sizes n' = spline_sizes n"
  "CubicSplineN_set_spatial_extent i extent n = Some n' \<longrightarrow> spline_sizes n' = spline_sizes n"
  "CubicSplineN_solve sc n = Some (sc', n') \<longrightarrow> spline_sizes n' = spline_sizes n"
  "spline_sizes (CubicSplineN_resize sz n) = replicate (CubicSplineN_dimension n) sz"
  "spline_sizes (CubicSplineN_redimension dm n) =
     take dm (spline_sizes n) @ replicate (dm - CubicSplineN_dimension n) 0"
proof -
  show "CubicSplineN_set_point i v n = Some n' \<longrightarrow> spline_sizes n' = spline_sizes n"
    by (auto simp: CubicSplineN_set_point_def spline_sizes_def split: if_splits bind_splits
        dest: set_point_loop_sizes)
  show "CubicSplineN_set_coefficients i b c d n = Some n' \<longrightarrow> spline_sizes n' = spline_sizes n"
    by (auto simp: CubicSplineN_set_coefficients_def spline_sizes_def split: if_splits bind_splits
        dest: set_coefficients_loop_sizes)
  show "CubicSplineN_set_spatial_extent i extent n = Some n' \<longrightarrow> spline_sizes n' = spline_sizes n"
    by (auto simp: CubicSplineN_set_spatial_extent_def spline_sizes_def vec_modify_def
        CubicSpline_size_def map_update list_update_same_conv split: if_splits)
  have l: "map CubicSpline_size x = map CubicSpline_size (m_splines n)"
    if "solve_each solve_looped sc (m_splines n) = Some (c, x)" for c x
    by (rule solve_each_sizes[where solve_one = solve_looped, OF _ that]) (rule solve_looped_size)
  have s: "map CubicSpline_size x = map CubicSpline_size (m_splines n)"
    if "solve_each solve_straight sc (m_splines n) = Some (c, x)" for c x
    by (rule solve_each_sizes[where solve_one = solve_straight, OF _ that]) (rule solve_straight_size)
  show "CubicSplineN_solve sc n = Some (sc', n') \<longrightarrow> spline_sizes n' = spline_sizes n"
  proof
    assume a: "CubicSplineN_solve sc n = Some (sc', n')"
    show "spline_sizes n' = spline_sizes n"
    proof (cases "m_dirty n")
      case False
      with a show ?thesis by (simp add: CubicSplineN_solve_def)
    next
      case dirty: True
      show ?thesis
      proof (cases "loop n")
        case True
        with a dirty obtain c x where r: "solve_each solve_looped sc (m_splines n) = Some (c, x)"
          and n': "n' = n\<lparr>m_splines := x, m_dirty := False\<rparr>"
          by (auto simp: CubicSplineN_solve_def split: bind_splits)
        show ?thesis using l[OF r] by (simp add: n' spline_sizes_def)
      next
        case False
        with a dirty obtain c x where r: "solve_each solve_straight sc (m_splines n) = Some (c, x)"
          and n': "n' = n\<lparr>m_splines := x, m_dirty := False\<rparr>"
          by (auto simp: CubicSplineN_solve_def split: bind_splits)
        show ?thesis using s[OF r] by (simp add: n' spline_sizes_def)
      qed
    qed
  qed
  have "CubicSpline_size (CubicSpline_resize sz x) = sz" for x
    by (simp add: CubicSpline_resize_def CubicSpline_size_def vec_resize_def min_def)
  then show "spline_sizes (CubicSplineN_resize sz n) = replicate (CubicSplineN_dimension n) sz"
    by (simp add: spline_sizes_def CubicSplineN_resize_def CubicSplineN_dimension_def
        map_replicate_const comp_def)
  show "spline_sizes (CubicSplineN_redimension dm n) =
     take dm (spline_sizes n) @ replicate (dm - CubicSplineN_dimension n) 0"
    by (simp add: spline_sizes_def CubicSplineN_redimension_def CubicSplineN_dimension_def
        vec_resize_def take_map default_CubicSpline_def CubicSpline_size_def)
qed

text \<open>
  C6. The claim is that every operation of the bundle leaves all its splines with the same
  number of points. \<open>redimension\<close> to a larger dimension adds splines of no points to
  splines of three: the sizes are \<open>3\<close> and \<open>0\<close>, \<open>size\<close> reports \<open>3\<close>, and \<open>set_point\<close>
  at the index \<open>2\<close>, below that size, fails the assertion of the new spline.
\<close>

theorem redimension_adds_empty_splines:
  "map CubicSpline_size (m_splines one_spline_bundle) = [3]
   \<and> map CubicSpline_size (m_splines (CubicSplineN_redimension 2 one_spline_bundle)) = [3, 0]
   \<and> CubicSplineN_size (CubicSplineN_redimension 2 one_spline_bundle) = 3
   \<and> CubicSplineN_set_point 2 [7, 7] (CubicSplineN_redimension 2 one_spline_bundle) = None"
  by (simp add: example_defs spline_eval bundle_eval vec_at_def vec_set_def
      cong: option_bind_weak_cong)

section \<open>Properties of loop\_space\_difference\<close>

text \<open>
  C9. For all \<open>a\<close>, \<open>b\<close> and extent, \<open>loop_space_difference\<close> returns one of the two wrapped
  candidates \<open>a - (b + extent)\<close> and \<open>a - (b - extent)\<close>, the one of smaller magnitude (the
  second on a tie), and never a third value; with extent \<open>0\<close> the two candidates coincide and
  the result is \<open>a - b\<close>. The function is a total function of its three arguments alone.
\<close>

theorem loop_space_difference_two_candidates:
  "(loop_space_difference a b e = a - (b + e) \<or> loop_space_difference a b e = a - (b - e))
   \<and> \<bar>loop_space_difference a b e\<bar> = min \<bar>a - (b + e)\<bar> \<bar>a - (b - e)\<bar>
   \<and> loop_space_difference a b 0 = a - b"
  by (simp add: loop_space_difference_def Let_def min_def)

end
